theory Spec2Isabelle
  imports Complex_Main "HOL-Library.List_Lexorder"
begin

section \<open>Python values and exceptions\<close>

text \<open>
  The exceptions the modelled code can raise. A function of the source that can raise
  returns \<open>error + 'a\<close>, with \<open>Inl\<close> for the exception.
\<close>

datatype error =
    IndexError | KeyError | TypeError | AttributeError | ZeroDivisionError
  | ValueError | LinAlgError | InterruptedError | StopIteration | AssertionError

section \<open>The tile catalog (class \<open>WFC_Sample\<close>)\<close>

text \<open>
  A tile is its pixel block, flattened to the list of its bytes. A tile hash is a Python
  integer. A source image enters the model after slicing: the number of rows and columns
  of its tile grid and the tiles in row-major order, which is the array \<open>tiles\<close>
  of \<open>prepare\<close> after its two reshapes. The hash function (BLAKE2b, 4 bytes) is
  a parameter \<open>H\<close>.

  Frequencies are Python floats; the model computes with real numbers.
\<close>

type_synonym tile = "int list"

type_synonym tile_data = "int \<rightharpoonup> tile \<times> real"

type_synonym super_tile = "int list"

record sliced_img =
  ycell_len :: nat
  xcell_len :: nat
  tiles :: "tile list"

record wfc_sample =
  tile_data :: tile_data
  super_tile_data :: "(super_tile \<times> int) list"

text \<open>
  \<open>np.unique(a, axis=0, return_counts=True)\<close>: the sorted distinct rows, each
  with its number of occurrences.
\<close>

definition np_unique :: "int list list \<Rightarrow> (int list \<times> nat) list" where
  "np_unique a = map (\<lambda>u. (u, count_list a u)) (sort (remdups a))"

text \<open>
  \<open>dict(zip(ks, vs))\<close> as a map: where a key repeats the last pair wins.
\<close>

definition dict_zip :: "'k list \<Rightarrow> 'v list \<Rightarrow> ('k \<rightharpoonup> 'v)" where
  "dict_zip ks vs = map_of (rev (zip ks vs))"

text \<open>
  The 3x3 window of the hash grid whose top-left corner is \<open>(y, x)\<close>, flattened
  row by row: \<open>hashed_tiles[y:y + 3, x:x + 3]\<close>.
\<close>

definition window3 :: "nat \<Rightarrow> int list \<Rightarrow> nat \<Rightarrow> nat \<Rightarrow> super_tile" where
  "window3 w hashed y x =
     concat (map (\<lambda>dy. map (\<lambda>dx. hashed ! ((y + dy) * w + (x + dx))) [0..<3]) [0..<3])"

text \<open>
  \<open>prepare\<close>, from the sliced image on: the tile dictionary with per-sample
  frequencies \<open>count / number of tiles\<close>, and the list of distinct 3x3 windows
  with their counts.
\<close>

definition prepare :: "(tile \<Rightarrow> int) \<Rightarrow> sliced_img \<Rightarrow> tile_data \<times> (super_tile \<times> int) list" where
  "prepare H img =
     (let uc = np_unique (tiles img);
          utiles = map fst uc;
          counts = map snd uc;
          ut_hashes = map H utiles;
          tiles_data = dict_zip ut_hashes
                         (zip utiles (map (\<lambda>c. real c / real (length (tiles img))) counts));
          hashed_tiles = map H (tiles img);
          super_tiles = concat (map (\<lambda>y. map (\<lambda>x. window3 (xcell_len img) hashed_tiles y x)
                                              [0..<xcell_len img - 2])
                                    [0..<ycell_len img - 2]);
          super_tiles_data = map (\<lambda>(u, c). (u, int c)) (np_unique super_tiles)
      in (tiles_data, super_tiles_data))"

text \<open>
  \<open>merge_tuples\<close>: a \<open>defaultdict(int)\<close> keyed by the flattened window, filled
  in the order of \<open>list1 + list2\<close>; the result lists the keys in insertion order.
  The first line reads \<open>list1[0]\<close>, which raises on an empty \<open>list1\<close>.
\<close>

fun dict_add :: "('k \<times> int) list \<Rightarrow> 'k \<Rightarrow> int \<Rightarrow> ('k \<times> int) list" where
  "dict_add [] k v = [(k, v)]"
| "dict_add ((k', c) # d) k v = (if k' = k then (k', c + v) # d else (k', c) # dict_add d k v)"

definition merge_tuples ::
  "(super_tile \<times> int) list \<Rightarrow> (super_tile \<times> int) list \<Rightarrow> error + (super_tile \<times> int) list" where
  "merge_tuples list1 list2 =
     (if list1 = [] then Inl IndexError
      else Inr (foldl (\<lambda>d (k, v). dict_add d k v) [] (list1 @ list2)))"

text \<open>
  The dictionary comprehension of \<open>WFC_Sample.__init__\<close>:
  \<^verbatim>\<open>{k: (v[0], self.tile_data.get(k, (None, 0))[1] + v[1])
     for k, v in {**self.tile_data, **r_tile_data}.items()}\<close>
  In \<open>{**a, **b}\<close> the value of a key of both is the one of \<open>b\<close>, which is
  \<open>a ++ b\<close> on maps.
\<close>

definition merge_tile_data :: "tile_data \<Rightarrow> tile_data \<Rightarrow> tile_data" where
  "merge_tile_data old r =
     (\<lambda>k. case (old ++ r) k of
            None \<Rightarrow> None
          | Some v \<Rightarrow> Some (fst v, (case old k of None \<Rightarrow> 0 | Some p \<Rightarrow> snd p) + snd v))"

fun merge_samples :: "(tile \<Rightarrow> int) \<Rightarrow> wfc_sample \<Rightarrow> sliced_img list \<Rightarrow> error + wfc_sample" where
  "merge_samples H s [] = Inr s"
| "merge_samples H s (img # imgs) =
     (case prepare H img of (r_tile_data, r_super_tile_data) \<Rightarrow>
        (case merge_tuples (super_tile_data s) r_super_tile_data of
           Inl e \<Rightarrow> Inl e
         | Inr st \<Rightarrow>
             merge_samples H
               \<lparr>tile_data = merge_tile_data (tile_data s) r_tile_data, super_tile_data = st\<rparr>
               imgs))"

definition WFC_Sample_init :: "(tile \<Rightarrow> int) \<Rightarrow> sliced_img list \<Rightarrow> error + wfc_sample" where
  "WFC_Sample_init H src_imgs =
     (case src_imgs of
        [] \<Rightarrow> Inl IndexError
      | img # imgs \<Rightarrow>
          (case prepare H img of (td, std) \<Rightarrow>
             merge_samples H \<lparr>tile_data = td, super_tile_data = std\<rparr> imgs))"

text \<open>
  The merged frequency as the specification words it: the sum of the tile's per-sample
  frequencies over the samples in which it occurs.
\<close>

definition spec_merged_freq :: "(tile \<Rightarrow> int) \<Rightarrow> sliced_img list \<Rightarrow> int \<Rightarrow> real" where
  "spec_merged_freq H src_imgs k =
     sum_list (map (\<lambda>img. case fst (prepare H img) k of None \<Rightarrow> 0 | Some p \<Rightarrow> snd p) src_imgs)"

text \<open>Two 3x3 samples, each of one colour, and a hash that reads the first byte.\<close>

definition uniform_img :: "int \<Rightarrow> sliced_img" where
  "uniform_img c = \<lparr>ycell_len = 3, xcell_len = 3, tiles = replicate 9 [c]\<rparr>"

definition first_byte :: "tile \<Rightarrow> int" where
  "first_byte t = (case t of [] \<Rightarrow> 0 | b # _ \<Rightarrow> b)"

section \<open>Arrays, nodes and the search problem (class \<open>WFC_Problem\<close>)\<close>

text \<open>
  A two-dimensional array of tile hashes: its shape and its cells in row-major order,
  which is the order of \<open>tobytes()\<close>. Python floats are modelled by real numbers
  throughout.
\<close>

record ndarray =
  shape0 :: nat
  shape1 :: nat
  data :: "int list"

definition np_zeros :: "nat \<Rightarrow> nat \<Rightarrow> ndarray" where
  "np_zeros h w = \<lparr>shape0 = h, shape1 = w, data = replicate (h * w) 0\<rparr>"

definition np_size :: "ndarray \<Rightarrow> nat" where
  "np_size a = shape0 a * shape1 a"

definition count_nonzero :: "ndarray \<Rightarrow> nat" where
  "count_nonzero a = length (filter (\<lambda>v. v \<noteq> 0) (data a))"

definition in_bounds :: "ndarray \<Rightarrow> int \<times> int \<Rightarrow> bool" where
  "in_bounds a c = (0 \<le> fst c \<and> fst c < int (shape0 a) \<and> 0 \<le> snd c \<and> snd c < int (shape1 a))"

text \<open>The cell \<open>a[y, x]\<close> at a coordinate already known to be in bounds.\<close>

definition cell :: "ndarray \<Rightarrow> int \<times> int \<Rightarrow> int" where
  "cell a c = data a ! (nat (fst c) * shape1 a + nat (snd c))"

text \<open>
  An index as numpy reads it where the code does not check it first: a negative index
  counts from the end, an index out of range raises.
\<close>

definition np_index :: "nat \<Rightarrow> int \<Rightarrow> error + nat" where
  "np_index n i =
     (if 0 \<le> i \<and> i < int n then Inr (nat i)
      else if - int n \<le> i \<and> i < 0 then Inr (nat (i + int n))
      else Inl IndexError)"

definition np_offset :: "ndarray \<Rightarrow> int \<times> int \<Rightarrow> error + nat" where
  "np_offset a c =
     (case np_index (shape0 a) (fst c) of
        Inl e \<Rightarrow> Inl e
      | Inr j \<Rightarrow> (case np_index (shape1 a) (snd c) of
                   Inl e \<Rightarrow> Inl e
                 | Inr i \<Rightarrow> Inr (j * shape1 a + i)))"

text \<open>
  A node of the search library (\<open>py_search.base.Node\<close>): its state
  \<open>(depth, world hash)\<close>, parent link, the action \<open>((y, x), tile)\<close> that
  produced it, its cost and the accumulated entropy. The root has neither parent nor
  action. \<open>depth\<close> counts the parent links.
\<close>

type_synonym action = "(int \<times> int) \<times> int"

datatype node = Node (state: "nat \<times> int") (parent: "node option") (action: "action option")
  (node_cost: real) (extra: real)

fun depth :: "node \<Rightarrow> nat" where
  "depth (Node s None a c e) = 0"
| "depth (Node s (Some q) a c e) = Suc (depth q)"

text \<open>The node \<open>Problem.__init__(initial=(0, 0), initial_cost=0, extra=0)\<close> creates.\<close>

definition initial_node :: node where
  "initial_node = Node (0, 0) None None 0 0"

text \<open>
  The external functions the problem calls: the random generator of numpy
  (\<open>default_rng(seed)\<close>, \<open>rng.random(n)\<close>, \<open>rng.integers(low, high)\<close>), whose
  state has type \<open>'g\<close>, the 4-byte BLAKE2b hash of the bytes of the world array, and
  the order in which Python iterates a set of coordinates.
\<close>

record 'g env =
  default_rng :: "int \<Rightarrow> 'g"
  rng_random :: "'g \<Rightarrow> nat \<Rightarrow> real list \<times> 'g"
  rng_integers :: "'g \<Rightarrow> int \<Rightarrow> int \<Rightarrow> int \<times> 'g"
  world_hash :: "ndarray \<Rightarrow> int"
  set_order :: "(int \<times> int) set \<Rightarrow> (int \<times> int) list"

text \<open>The keyword arguments of \<open>WFC_Problem.__init__\<close>.\<close>

record wfc_args =
  kw_sample :: wfc_sample
  kw_starting_state :: ndarray
  kw_seed :: int
  kw_use_8_cardinals :: bool
  kw_max_freq_adjust :: real
  kw_plateau_check_interval :: int
  kw_starting_temperature :: real
  kw_min_min_temperature :: real
  kw_max_min_temperature :: real
  kw_reverse_depth_w :: real
  kw_node_cost_w :: real
  kw_path_entropy_average_w :: real
  kw_stop_proxy :: "bool option"
  kw_ticker_proxy :: "int option"

text \<open>
  The fields of a \<open>WFC_Problem\<close>. A proxy field holds the value the proxy currently
  has, or \<open>None\<close> when no proxy was given.
\<close>

record 'g problem =
  stop_proxy :: "bool option"
  ticker_proxy :: "int option"
  rng :: 'g
  sample :: wfc_sample
  number_of_tiles_to_process :: int
  world_tdims :: "nat \<times> nat"
  temp_world_state :: ndarray
  starting_state :: "ndarray option"
  temp_world_open_super_tiles :: "(int \<times> int) set"
  min_temperature :: real
  min_min_temperature :: real
  max_min_temperature :: real
  rev_depth_w :: real
  node_cost_w :: real
  path_ent_avg_w :: real
  best_node :: "node option"
  prev_best_depth :: nat
  last_node :: "node option"
  plateau_check_ticker :: nat
  plateau_stop_steps :: real
  stop :: bool
  use_8cardinals :: bool
  tile_counts :: "int \<rightharpoonup> int"
  max_freq_adjust :: real
  tile_freq_adjustment_poly :: "real list"

text \<open>
  \<open>np.linalg.solve(a, b)\<close> for a 3x3 system: it raises \<open>LinAlgError\<close> on a
  singular matrix and returns the solution otherwise (here by Cramer's rule).
\<close>

type_synonym row3 = "real \<times> real \<times> real"

definition det3 :: "row3 \<times> row3 \<times> row3 \<Rightarrow> real" where
  "det3 m = (case m of ((a, b, c), (d, e, f), (g, h, i)) \<Rightarrow>
     a * (e * i - f * h) - b * (d * i - f * g) + c * (d * h - e * g))"

definition linalg_solve3 :: "row3 \<times> row3 \<times> row3 \<Rightarrow> row3 \<Rightarrow> error + real list" where
  "linalg_solve3 m v =
     (case m of ((a, b, c), (d, e, f), (g, h, i)) \<Rightarrow>
      case v of (r, s, t) \<Rightarrow>
        if det3 m = 0 then Inl LinAlgError
        else Inr [det3 ((r, b, c), (s, e, f), (t, h, i)) / det3 m,
                  det3 ((a, r, c), (d, s, f), (g, t, i)) / det3 m,
                  det3 ((a, b, r), (d, e, s), (g, h, t)) / det3 m])"

text \<open>\<open>np.poly1d(cs)(x)\<close>: the polynomial with coefficients \<open>cs\<close>, highest power first.\<close>

definition poly1d :: "real list \<Rightarrow> real \<Rightarrow> real" where
  "poly1d cs x = foldl (\<lambda>acc c. acc * x + c) 0 cs"

definition WFC_Problem_init :: "'g env \<Rightarrow> wfc_args \<Rightarrow> error + 'g problem" where
  "WFC_Problem_init E kw =
     (let starting = kw_starting_state kw;
          non_zeroes = count_nonzero starting;
          t = real_of_int (int (np_size starting) - int non_zeroes);
          a = ((0, 0, 1), (t ^ 2, t, 1), ((t / 2) ^ 2, t / 2, 1));
          b = (t, t, 0)
      in case linalg_solve3 a b of
           Inl e \<Rightarrow> Inl e
         | Inr coeffs \<Rightarrow> Inr
            \<lparr>stop_proxy = kw_stop_proxy kw,
             ticker_proxy = kw_ticker_proxy kw,
             rng = default_rng E (kw_seed kw),
             sample = kw_sample kw,
             number_of_tiles_to_process = int (np_size starting) - int non_zeroes,
             world_tdims = (shape0 starting, shape1 starting),
             temp_world_state = starting,
             starting_state = (if non_zeroes > 0 then Some starting else None),
             temp_world_open_super_tiles = {},
             min_temperature = kw_starting_temperature kw,
             min_min_temperature = kw_min_min_temperature kw,
             max_min_temperature = kw_max_min_temperature kw,
             rev_depth_w = kw_reverse_depth_w kw,
             node_cost_w = kw_node_cost_w kw,
             path_ent_avg_w = kw_path_entropy_average_w kw,
             best_node = None,
             prev_best_depth = 0,
             last_node = None,
             plateau_check_ticker = 0,
             plateau_stop_steps =
               (if kw_plateau_check_interval kw = - 1
                then real (shape0 starting) * real (shape1 starting) / 2
                else real_of_int (kw_plateau_check_interval kw)),
             stop = False,
             use_8cardinals = kw_use_8_cardinals kw,
             tile_counts = (\<lambda>k. if k \<in> dom (tile_data (kw_sample kw)) then Some 0 else None),
             max_freq_adjust = kw_max_freq_adjust kw,
             tile_freq_adjustment_poly = coeffs\<rparr>)"

subsection \<open>Temperature and depth adjustment\<close>

text \<open>
  \<open>temp_ratio\<close> and \<open>_tile_freq_adjustment_func\<close> are memoised
  (\<open>lru_cache\<close>); they read only fields that never change after construction, so
  the cache does not show in their results. In \<open>temp_ratio\<close> the division by the
  number of tiles to process is a division of Python integers and raises when that
  number is zero; in \<open>_tile_freq_adjustment_func\<close> the dividend is a numpy float,
  and the number is not zero in any problem the constructor returns.
\<close>

definition temp_ratio :: "'g problem \<Rightarrow> nat \<Rightarrow> nat \<Rightarrow> error + real" where
  "temp_ratio p node_depth prior_node_depth =
     (let depth_diff = int prior_node_depth - int node_depth in
      if number_of_tiles_to_process p = 0 then Inl ZeroDivisionError
      else
        let depth_ratio = real node_depth / real_of_int (number_of_tiles_to_process p) in
        Inr (if depth_diff \<noteq> 0
             then min (9 / 10)
                    (real_of_int (\<bar>depth_diff\<bar> * 3) / sqrt (real_of_int (number_of_tiles_to_process p)))
             else depth_ratio powr (5 / 2) / 80))"

definition get_new_temperature :: "'g problem \<Rightarrow> nat \<Rightarrow> nat \<Rightarrow> error + real" where
  "get_new_temperature p node_depth prior_node_depth =
     (let limit = (if node_depth \<le> prior_node_depth then max_min_temperature p
                   else min_min_temperature p)
      in case temp_ratio p node_depth prior_node_depth of
           Inl e \<Rightarrow> Inl e
         | Inr ratio \<Rightarrow> Inr (limit * ratio + min_temperature p * (1 - ratio)))"

definition tile_freq_adjustment_func :: "'g problem \<Rightarrow> nat \<Rightarrow> real" where
  "tile_freq_adjustment_func p d =
     max_freq_adjust p *
       (1 - poly1d (tile_freq_adjustment_poly p) (real d)
              / real_of_int (number_of_tiles_to_process p))"

text \<open>
  The two formulas as the specification words them: the quadratic through
  \<open>(0, 0)\<close>, \<open>(T, 0)\<close> and \<open>(T/2, T)\<close>, and the temperature ratio that
  takes the capped branch when the depth decreased or is unchanged.
\<close>

definition spec_Q :: "real \<Rightarrow> real \<Rightarrow> real" where
  "spec_Q T x = 4 * x - 4 * x ^ 2 / T"

definition spec_temp_ratio :: "real \<Rightarrow> nat \<Rightarrow> nat \<Rightarrow> real" where
  "spec_temp_ratio T node_depth prior_node_depth =
     (if node_depth \<le> prior_node_depth
      then min (9 / 10) (\<bar>real prior_node_depth - real node_depth\<bar> * 3 / sqrt T)
      else (real node_depth / T) powr (5 / 2) / 80)"

definition spec_new_temperature :: "'g problem \<Rightarrow> nat \<Rightarrow> nat \<Rightarrow> real" where
  "spec_new_temperature p node_depth prior_node_depth =
     (let ratio = spec_temp_ratio (real_of_int (number_of_tiles_to_process p)) node_depth
                    prior_node_depth;
          floor_t = (if prior_node_depth < node_depth then max_min_temperature p
                     else min_min_temperature p)
      in floor_t * ratio + min_temperature p * (1 - ratio))"

subsection \<open>Concrete inputs\<close>

text \<open>
  A generator that counts its draws and returns the midpoint of each range, a hash that
  adds the cells up, a set order that lists the coordinates of a set row by row (for
  sets inside a 4x4 grid), the catalog of one tile \<open>7\<close> whose only 3x3 pattern is all
  \<open>7\<close>, and the arguments of a default run on a starting grid.
\<close>

definition demo_env :: "nat env" where
  "demo_env = \<lparr>default_rng = (\<lambda>seed. 0),
              rng_random = (\<lambda>g n. (replicate n (1 / 2), Suc g)),
              rng_integers = (\<lambda>g low high. ((low + high) div 2, Suc g)),
              world_hash = (\<lambda>a. sum_list (data a)),
              set_order = (\<lambda>F. filter (\<lambda>c. c \<in> F)
                                 [(y, x). y \<leftarrow> [0, 1, 2, 3], x \<leftarrow> [0, 1, 2, 3]])\<rparr>"

definition demo_sample :: wfc_sample where
  "demo_sample = \<lparr>tile_data = [7 \<mapsto> ([7], 1)], super_tile_data = [(replicate 9 7, 1)]\<rparr>"

definition demo_args :: "ndarray \<Rightarrow> wfc_args" where
  "demo_args g =
     \<lparr>kw_sample = demo_sample, kw_starting_state = g, kw_seed = 0,
      kw_use_8_cardinals = False, kw_max_freq_adjust = 1, kw_plateau_check_interval = - 1,
      kw_starting_temperature = 50, kw_min_min_temperature = 0, kw_max_min_temperature = 80,
      kw_reverse_depth_w = 1, kw_node_cost_w = 1, kw_path_entropy_average_w = 0,
      kw_stop_proxy = None, kw_ticker_proxy = None\<rparr>"

text \<open>The number \<open>T\<close> of cells to fill of a starting grid: its size minus its decided cells.\<close>

definition tiles_to_fill :: "ndarray \<Rightarrow> int" where
  "tiles_to_fill g = int (np_size g) - int (count_nonzero g)"

subsection \<open>The world state manager\<close>

text \<open>
  \<open>update_open_nodes(y, x, is_reopening)\<close>. The eight neighbour coordinates of
  \<open>(y, x)\<close> in row order, of which positions 1, 3, 4 and 6 are the four cardinals,
  kept when inside the grid. When reopening, a neighbour that is in the open set is
  removed unless one of the cells around it (the nine cells of its 3x3 block, or
  positions 1, 3, 5 and 7 of them in 4-cardinal mode) is decided, which is
  \<open>decided_around\<close>. When closing,
  \<open>wost.remove\<close> raises on a coordinate that is not in the set.
\<close>

definition indices_to_check :: "bool \<Rightarrow> ndarray \<Rightarrow> int \<times> int \<Rightarrow> (int \<times> int) list" where
  "indices_to_check use8 a c =
     (let idx = [(fst c - 1 + dy, snd c - 1 + dx). dy \<leftarrow> [0, 1, 2], dx \<leftarrow> [0, 1, 2],
                  dy \<noteq> 1 \<or> dx \<noteq> 1];
          idx = (if use8 then idx else map (\<lambda>i. idx ! i) [1, 3, 4, 6])
      in filter (in_bounds a) idx)"

definition sub_indices_to_check :: "bool \<Rightarrow> ndarray \<Rightarrow> int \<times> int \<Rightarrow> (int \<times> int) list" where
  "sub_indices_to_check use8 a c =
     (let idx = [(fst c - 1 + dy, snd c - 1 + dx). dy \<leftarrow> [0, 1, 2], dx \<leftarrow> [0, 1, 2]];
          idx = (if use8 then idx else map (\<lambda>i. idx ! i) [1, 3, 5, 7])
      in filter (in_bounds a) idx)"

definition decided_around :: "'g problem \<Rightarrow> int \<times> int \<Rightarrow> bool" where
  "decided_around p c =
     list_ex (\<lambda>s. cell (temp_world_state p) s \<noteq> 0)
       (sub_indices_to_check (use_8cardinals p) (temp_world_state p) c)"

definition reopen_step :: "'g problem \<Rightarrow> (int \<times> int) set \<Rightarrow> int \<times> int \<Rightarrow> (int \<times> int) set" where
  "reopen_step p wost c =
     (if c \<notin> wost then wost
      else if decided_around p c then wost
      else wost - {c})"

definition close_step :: "'g problem \<Rightarrow> (int \<times> int) set \<Rightarrow> int \<times> int \<Rightarrow> (int \<times> int) set" where
  "close_step p wost c = (if cell (temp_world_state p) c = 0 then insert c wost else wost)"

definition update_open_nodes :: "'g problem \<Rightarrow> int \<times> int \<Rightarrow> bool \<Rightarrow> error + 'g problem" where
  "update_open_nodes p c is_reopening =
     (let wost = temp_world_open_super_tiles p;
          idx = indices_to_check (use_8cardinals p) (temp_world_state p) c
      in if is_reopening
         then Inr (p\<lparr>temp_world_open_super_tiles := foldl (reopen_step p) (insert c wost) idx\<rparr>)
         else if c \<notin> wost then Inl KeyError
         else Inr (p\<lparr>temp_world_open_super_tiles := foldl (close_step p) (wost - {c}) idx\<rparr>))"

text \<open>
  \<open>revert_action\<close> and \<open>apply_action\<close>. Unpacking the action of a root node,
  which is \<open>None\<close>, raises; the position indexes the array unchecked; a tile that
  is not a key of the counters raises. \<open>revert_action\<close> decrements the counter of
  the tile it finds in the grid.
\<close>

definition revert_action :: "'g problem \<Rightarrow> action option \<Rightarrow> error + 'g problem" where
  "revert_action p node_action =
     (case node_action of
        None \<Rightarrow> Inl TypeError
      | Some (pos, st) \<Rightarrow>
          (case np_offset (temp_world_state p) pos of
             Inl e \<Rightarrow> Inl e
           | Inr i \<Rightarrow>
               (let k = data (temp_world_state p) ! i in
                case tile_counts p k of
                  None \<Rightarrow> Inl KeyError
                | Some n \<Rightarrow>
                    update_open_nodes
                      (p\<lparr>tile_counts := (tile_counts p)(k \<mapsto> n - 1),
                         temp_world_state :=
                           (temp_world_state p)\<lparr>data := (data (temp_world_state p))[i := 0]\<rparr>\<rparr>)
                      pos True)))"

definition apply_action :: "'g problem \<Rightarrow> action option \<Rightarrow> error + 'g problem" where
  "apply_action p node_action =
     (case node_action of
        None \<Rightarrow> Inl TypeError
      | Some (pos, st) \<Rightarrow>
          (case np_offset (temp_world_state p) pos of
             Inl e \<Rightarrow> Inl e
           | Inr i \<Rightarrow>
               (case tile_counts p st of
                  None \<Rightarrow> Inl KeyError
                | Some n \<Rightarrow>
                    update_open_nodes
                      (p\<lparr>temp_world_state :=
                           (temp_world_state p)\<lparr>data := (data (temp_world_state p))[i := st]\<rparr>,
                         tile_counts := (tile_counts p)(st \<mapsto> n + 1)\<rparr>)
                      pos False)))"

text \<open>
  \<open>get_world_state(last_node, current_node)\<close>, loop by loop (the two nodes are
  \<open>last_nd\<close> and \<open>current_nd\<close> here). A variable that
  walks up parent links holds \<open>None\<close> above the root, where reading an attribute
  raises.
\<close>

fun revert_up :: "'g problem \<Rightarrow> node option \<Rightarrow> nat \<Rightarrow> error + 'g problem \<times> node option" where
  "revert_up p n 0 = Inr (p, n)"
| "revert_up p n (Suc k) =
     (case n of
        None \<Rightarrow> Inl AttributeError
      | Some nd \<Rightarrow> (case revert_action p (action nd) of
                     Inl e \<Rightarrow> Inl e
                   | Inr p' \<Rightarrow> revert_up p' (parent nd) k))"

fun ascend :: "node option \<Rightarrow> nat \<Rightarrow> error + node option" where
  "ascend n 0 = Inr n"
| "ascend n (Suc k) = (case n of None \<Rightarrow> Inl AttributeError | Some nd \<Rightarrow> ascend (parent nd) k)"

text \<open>
  The loop \<open>for i in range(start_depth + 1)[::-1]\<close> with \<open>Suc i\<close> iterations
  left: it returns the problem and \<open>common_depth\<close>, which stays 0 when the loop
  runs out.
\<close>

fun find_common :: "'g problem \<Rightarrow> node option \<Rightarrow> node option \<Rightarrow> nat \<Rightarrow> error + 'g problem \<times> nat" where
  "find_common p pn cn 0 = Inr (p, 0)"
| "find_common p pn cn (Suc i) =
     (case pn of
        None \<Rightarrow> Inl AttributeError
      | Some a \<Rightarrow>
          (case cn of
             None \<Rightarrow> Inl AttributeError
           | Some b \<Rightarrow>
               if state a = state b then Inr (p, i)
               else (case revert_action p (action a) of
                       Inl e \<Rightarrow> Inl e
                     | Inr p' \<Rightarrow> find_common p' (parent a) (parent b) i)))"

fun nodes_to_apply :: "node option \<Rightarrow> nat \<Rightarrow> error + node list" where
  "nodes_to_apply n 0 = Inr []"
| "nodes_to_apply n (Suc k) =
     (case n of
        None \<Rightarrow> Inl AttributeError
      | Some nd \<Rightarrow> (case nodes_to_apply (parent nd) k of
                     Inl e \<Rightarrow> Inl e
                   | Inr ns \<Rightarrow> Inr (nd # ns)))"

fun apply_nodes :: "'g problem \<Rightarrow> node list \<Rightarrow> error + 'g problem" where
  "apply_nodes p [] = Inr p"
| "apply_nodes p (nd # ns) =
     (case apply_action p (action nd) of Inl e \<Rightarrow> Inl e | Inr p' \<Rightarrow> apply_nodes p' ns)"

definition get_world_state :: "'g problem \<Rightarrow> node \<Rightarrow> node \<Rightarrow> error + 'g problem" where
  "get_world_state p last_nd current_nd =
     (let start_depth = min (depth last_nd) (depth current_nd) in
      case revert_up p (Some last_nd) (depth last_nd - start_depth) of
        Inl e \<Rightarrow> Inl e
      | Inr (p1, p_node) \<Rightarrow>
          (case ascend (Some current_nd) (depth current_nd - start_depth) of
             Inl e \<Rightarrow> Inl e
           | Inr c_node \<Rightarrow>
               (case find_common p1 p_node c_node (Suc start_depth) of
                  Inl e \<Rightarrow> Inl e
                | Inr (p2, common_depth) \<Rightarrow>
                    (case nodes_to_apply (Some current_nd) (depth current_nd - common_depth) of
                       Inl e \<Rightarrow> Inl e
                     | Inr ns \<Rightarrow> apply_nodes p2 (rev ns)))))"

text \<open>
  \<open>open_nodes_on_depth_zero\<close>: the centre cell when there is no starting grid;
  otherwise every undecided cell \<open>(y, x)\<close> of the starting grid for which one of the
  cells \<open>(y + _y, x + _x)\<close> is decided, the offsets \<open>(_y, _x)\<close> ranging over
  \<open>range(3)\<close> without \<open>(1, 1)\<close> (positions 1, 3, 4, 6 in 4-cardinal mode).
\<close>

definition ndenumerate :: "ndarray \<Rightarrow> (int \<times> int) list" where
  "ndenumerate a = [(int y, int x). y \<leftarrow> [0..<shape0 a], x \<leftarrow> [0..<shape1 a]]"

definition open_nodes_on_depth_zero :: "'g problem \<Rightarrow> 'g problem" where
  "open_nodes_on_depth_zero p =
     (case starting_state p of
        None \<Rightarrow>
          p\<lparr>temp_world_open_super_tiles :=
              insert (int (fst (world_tdims p) div 2), int (snd (world_tdims p) div 2))
                (temp_world_open_super_tiles p)\<rparr>
      | Some s \<Rightarrow>
          (let rel = [(dy, dx). dy \<leftarrow> [0, 1, 2], dx \<leftarrow> [0, 1, 2], dy \<noteq> 1 \<or> dx \<noteq> 1];
               rel = (if use_8cardinals p then rel else map (\<lambda>i. rel ! i) [1, 3, 4, 6])
           in p\<lparr>temp_world_open_super_tiles :=
                 foldl (\<lambda>wost c.
                          if cell s c \<noteq> 0 then wost
                          else if list_ex (\<lambda>n. cell s n \<noteq> 0)
                                    (filter (in_bounds (temp_world_state p))
                                       (map (\<lambda>(dy, dx). (fst c + dy, snd c + dx)) rel))
                          then insert c wost
                          else wost)
                   (temp_world_open_super_tiles p) (ndenumerate s)\<rparr>))"

text \<open>The position of an in-bounds coordinate in the row-major cell list.\<close>

definition offset :: "ndarray \<Rightarrow> int \<times> int \<Rightarrow> nat" where
  "offset a c = nat (fst c) * shape1 a + nat (snd c)"

text \<open>
  The problem that the constructor builds from \<open>demo_args g\<close> when the grid
  \<open>g\<close> has a cell to fill.
\<close>

definition demo_problem :: "ndarray \<Rightarrow> nat problem" where
  "demo_problem g =
    \<lparr>stop_proxy = None, ticker_proxy = None, rng = 0, sample = demo_sample,
     number_of_tiles_to_process = tiles_to_fill g,
     world_tdims = (shape0 g, shape1 g),
     temp_world_state = g,
     starting_state = (if count_nonzero g > 0 then Some g else None),
     temp_world_open_super_tiles = {},
     min_temperature = 50, min_min_temperature = 0, max_min_temperature = 80,
     rev_depth_w = 1, node_cost_w = 1, path_ent_avg_w = 0,
     best_node = None, prev_best_depth = 0, last_node = None,
     plateau_check_ticker = 0,
     plateau_stop_steps = real (shape0 g) * real (shape1 g) / 2,
     stop = False, use_8cardinals = False,
     tile_counts = (\<lambda>k. if k \<in> dom (tile_data demo_sample) then Some 0 else None),
     max_freq_adjust = 1,
     tile_freq_adjustment_poly = [4 / real_of_int (tiles_to_fill g), - 4, real_of_int (tiles_to_fill g)]\<rparr>"

text \<open>
  The sum of the occurrence counters over all tile hashes, and the nodes whose root
  carries no action, as the root the library creates.
\<close>

definition count_total :: "'g problem \<Rightarrow> int" where
  "count_total p = (\<Sum>k \<in> dom (tile_counts p). the (tile_counts p k))"

fun rooted :: "node \<Rightarrow> bool" where
  "rooted (Node s None a c e) = (a = None)"
| "rooted (Node s (Some q) a c e) = rooted q"

text \<open>The child of the root that places tile 7 at \<open>(0, 1)\<close>.\<close>

definition demo_child :: node where
  "demo_child = Node (1, 7) (Some initial_node) (Some ((0, 1), 7)) 0 0"

subsection \<open>Adjacency query and cost model\<close>

text \<open>
  \<open>get_cell_potential_states_8cardinals\<close> and \<open>..._4cardinals\<close>. A 3x3
  pattern is its nine cells row by row, 0 for a wildcard; \<open>is_possible\<close> compares
  a catalog window with it cell by cell. The counts of the matching windows are added up
  in a \<open>defaultdict\<close> keyed by the centre tile, which keeps insertion order. Both
  functions are memoised on their arguments and read only the catalog.
\<close>

definition is_possible :: "int list \<Rightarrow> super_tile \<Rightarrow> bool" where
  "is_possible pattern stile = list_all (\<lambda>i. pattern ! i = 0 \<or> stile ! i = pattern ! i) [0..<9]"

text \<open>
  \<open>map_to_probabilities\<close>. The counts of a catalog are positive, so the total is
  not zero; the division is the one of the reals.
\<close>

definition map_to_probabilities :: "(int \<times> int) list \<Rightarrow> error + int list \<times> real list" where
  "map_to_probabilities pcs =
     (if pcs = [] then Inr ([], [])
      else
        let counts = map snd pcs;
            total_counts = sum_list counts;
            probabilities = map (\<lambda>c. real_of_int c / real_of_int total_counts) counts
        in if list_ex (\<lambda>q. 1 < q) probabilities then Inl AssertionError
           else Inr (map fst pcs, probabilities))"

definition potential_states :: "wfc_sample \<Rightarrow> int list \<Rightarrow> error + int list \<times> real list" where
  "potential_states s pattern =
     map_to_probabilities
       (foldl (\<lambda>pcs (stile, count).
                 if is_possible pattern stile then dict_add pcs (stile ! 4) count else pcs)
          [] (super_tile_data s))"

definition get_cell_potential_states_8cardinals ::
  "wfc_sample \<Rightarrow> int \<Rightarrow> int \<Rightarrow> int \<Rightarrow> int \<Rightarrow> int \<Rightarrow> int \<Rightarrow> int \<Rightarrow> int \<Rightarrow> error + int list \<times> real list" where
  "get_cell_potential_states_8cardinals s p1 p2 p3 p4 p6 p7 p8 p9 =
     potential_states s [p1, p2, p3, p4, 0, p6, p7, p8, p9]"

definition get_cell_potential_states_4cardinals ::
  "wfc_sample \<Rightarrow> int \<Rightarrow> int \<Rightarrow> int \<Rightarrow> int \<Rightarrow> error + int list \<times> real list" where
  "get_cell_potential_states_4cardinals s p2 p4 p6 p8 =
     potential_states s [0, p2, 0, p4, 0, p6, 0, p8, 0]"

text \<open>
  \<open>get_cell_potential_states_and_costs\<close>. \<open>int(x)\<close> truncates towards zero;
  \<open>rng.integers(low, high)\<close> raises when \<open>low >= high\<close>; a tile that is not a
  key of the catalog or of the counters raises. The result is the triple of the source
  and the problem with the generator advanced.
\<close>

definition py_int :: "real \<Rightarrow> int" where
  "py_int x = (if 0 \<le> x then \<lfloor>x\<rfloor> else \<lceil>x\<rceil>)"

definition np_clip :: "real \<Rightarrow> real \<Rightarrow> real \<Rightarrow> real" where
  "np_clip x lo hi = min (max x lo) hi"

fun lookup_all :: "('k \<rightharpoonup> 'v) \<Rightarrow> 'k list \<Rightarrow> error + 'v list" where
  "lookup_all m [] = Inr []"
| "lookup_all m (k # ks) =
     (case m k of
        None \<Rightarrow> Inl KeyError
      | Some v \<Rightarrow> (case lookup_all m ks of Inl e \<Rightarrow> Inl e | Inr vs \<Rightarrow> Inr (v # vs)))"

definition adjusted_freqs_diff :: "'g problem \<Rightarrow> nat \<Rightarrow> real list \<Rightarrow> real list \<Rightarrow> real list" where
  "adjusted_freqs_diff p d sample_freqs current_freqs =
     (if max_freq_adjust p = 0 then map (\<lambda>_. 0) sample_freqs
      else
        (let depth_adjustment = tile_freq_adjustment_func p d in
         map (\<lambda>(sf, cf). sgn (sf - cf) * (1 - min sf cf / max sf cf) * depth_adjustment)
           (zip sample_freqs current_freqs)))"

text \<open>
  The function in three parts: the states of the eight surrounding cells (0 outside the
  grid), the query of the catalog with them, and the costs of the candidates.
\<close>

definition adjacent_states :: "ndarray \<Rightarrow> int \<times> int \<Rightarrow> int list" where
  "adjacent_states world_state c =
     (let world_indices_to_check =
            [(fst c - 1 + dy, snd c - 1 + dx). dy \<leftarrow> [0, 1, 2], dx \<leftarrow> [0, 1, 2], dy \<noteq> 1 \<or> dx \<noteq> 1]
      in map (\<lambda>n. if in_bounds world_state n then cell world_state n else 0)
           world_indices_to_check)"

definition cell_candidates :: "'g problem \<Rightarrow> int \<times> int \<Rightarrow> error + int list \<times> real list" where
  "cell_candidates p c =
     (let adj = adjacent_states (temp_world_state p) c
      in if use_8cardinals p
         then get_cell_potential_states_8cardinals (sample p)
                (adj ! 0) (adj ! 1) (adj ! 2) (adj ! 3) (adj ! 4) (adj ! 5) (adj ! 6) (adj ! 7)
         else get_cell_potential_states_4cardinals (sample p)
                (adj ! 1) (adj ! 3) (adj ! 4) (adj ! 6))"

definition candidate_costs ::
  "'g env \<Rightarrow> 'g problem \<Rightarrow> nat \<Rightarrow> int list \<Rightarrow> real list
     \<Rightarrow> error + (int list \<times> real list option \<times> real option) \<times> 'g problem" where
  "candidate_costs E p d tile_ids probabilities =
     (case rng_random E (rng p) (length probabilities) of (rands, g1) \<Rightarrow>
      if 100 \<le> py_int (min_temperature p) then Inl ValueError
      else
        (case rng_integers E g1 (py_int (min_temperature p)) 100 of (r, g2) \<Rightarrow>
         let temp = 1 - real_of_int r / 100 in
         case lookup_all (tile_data (sample p)) tile_ids of
           Inl e \<Rightarrow> Inl e
         | Inr tds \<Rightarrow>
             (case lookup_all (tile_counts p) tile_ids of
                Inl e \<Rightarrow> Inl e
              | Inr current_counts \<Rightarrow>
                  (let sample_freqs = map snd tds;
                       current_freqs = map (\<lambda>k. real_of_int k / real (max 1 d)) current_counts;
                       adjusted = adjusted_freqs_diff p d sample_freqs current_freqs;
                       n = length probabilities;
                       entropy =
                         (if 1 < n
                          then - sum_list (map (\<lambda>q. q * log 2 q) probabilities) / log 2 (real n)
                          else 0);
                       costs =
                         map (\<lambda>(q, a, r).
                                (1 - np_clip (q + a * temp + (r * 2 - 1) * temp) 0 1) * entropy)
                           (zip probabilities (zip adjusted rands))
                   in Inr ((tile_ids, Some costs, Some entropy), p\<lparr>rng := g2\<rparr>)))))"

definition get_cell_potential_states_and_costs ::
  "'g env \<Rightarrow> 'g problem \<Rightarrow> int \<times> int \<Rightarrow> nat
     \<Rightarrow> error + (int list \<times> real list option \<times> real option) \<times> 'g problem" where
  "get_cell_potential_states_and_costs E p c d =
     (case cell_candidates p c of
        Inl e \<Rightarrow> Inl e
      | Inr (tile_ids, probabilities) \<Rightarrow>
          if tile_ids = [] then Inr (([], None, None), p)
          else candidate_costs E p d tile_ids probabilities)"

subsection \<open>Successors\<close>

text \<open>
  The list comprehension over the frontier cells, which draws from the generator cell
  by cell.
\<close>

fun potential_collapses ::
  "'g env \<Rightarrow> 'g problem \<Rightarrow> (int \<times> int) list \<Rightarrow> nat
     \<Rightarrow> error + (int list \<times> real list option \<times> real option) list \<times> 'g problem" where
  "potential_collapses E p [] d = Inr ([], p)"
| "potential_collapses E p (c # cs) d =
     (case get_cell_potential_states_and_costs E p c d of
        Inl e \<Rightarrow> Inl e
      | Inr (r, p1) \<Rightarrow>
          (case potential_collapses E p1 cs d of
             Inl e \<Rightarrow> Inl e
           | Inr (rs, p2) \<Rightarrow> Inr (r # rs, p2)))"

text \<open>
  The two nested loops that yield the children. For each candidate the cell is written
  into the shared grid, the grid is hashed, and the cell is set to 0 before the child is
  yielded. The function returns the children in the order they are yielded and the
  problem as the loops leave it.
\<close>

definition set_cell :: "'g problem \<Rightarrow> int \<times> int \<Rightarrow> int \<Rightarrow> error + 'g problem" where
  "set_cell p c v =
     (case np_offset (temp_world_state p) c of
        Inl e \<Rightarrow> Inl e
      | Inr i \<Rightarrow>
          Inr (p\<lparr>temp_world_state :=
                   (temp_world_state p)\<lparr>data := (data (temp_world_state p))[i := v]\<rparr>\<rparr>))"

fun yield_items ::
  "'g env \<Rightarrow> 'g problem \<Rightarrow> node \<Rightarrow> nat \<Rightarrow> real \<Rightarrow> int \<times> int \<Rightarrow> real
     \<Rightarrow> (int \<times> real) list \<Rightarrow> error + node list \<times> 'g problem" where
  "yield_items E p nd d cum_entropy c entropy [] = Inr ([], p)"
| "yield_items E p nd d cum_entropy c entropy ((tile_type, cost) # items) =
     (case set_cell p c tile_type of
        Inl e \<Rightarrow> Inl e
      | Inr p1 \<Rightarrow>
          (let world_state_hash = world_hash E (temp_world_state p1) in
           case set_cell p1 c 0 of
             Inl e \<Rightarrow> Inl e
           | Inr p2 \<Rightarrow>
               (case yield_items E p2 nd d cum_entropy c entropy items of
                  Inl e \<Rightarrow> Inl e
                | Inr (children, p3) \<Rightarrow>
                    Inr (Node (d + 1, world_state_hash) (Some nd) (Some (c, tile_type)) cost
                           (cum_entropy + entropy) # children, p3))))"

fun yield_cells ::
  "'g env \<Rightarrow> 'g problem \<Rightarrow> node \<Rightarrow> nat \<Rightarrow> real
     \<Rightarrow> ((int \<times> int) \<times> int list \<times> real list option \<times> real option) list
     \<Rightarrow> error + node list \<times> 'g problem" where
  "yield_cells E p nd d cum_entropy [] = Inr ([], p)"
| "yield_cells E p nd d cum_entropy ((c, potential, costs, entropy) # rest) =
     (case costs of
        None \<Rightarrow> Inl TypeError
      | Some cs \<Rightarrow>
          (case entropy of
             None \<Rightarrow> Inl TypeError
           | Some en \<Rightarrow>
               (case yield_items E p nd d cum_entropy c en (zip potential cs) of
                  Inl e \<Rightarrow> Inl e
                | Inr (children, p1) \<Rightarrow>
                    (case yield_cells E p1 nd d cum_entropy rest of
                       Inl e \<Rightarrow> Inl e
                     | Inr (others, p2) \<Rightarrow> Inr (children @ others, p2)))))"

text \<open>
  The plateau check: \<open>True\<close> when the search stops here.
\<close>

definition plateau_check :: "'g problem \<Rightarrow> node \<Rightarrow> bool \<times> 'g problem" where
  "plateau_check p best =
     (if 0 < plateau_stop_steps p
      then
        (let p1 = p\<lparr>plateau_check_ticker := plateau_check_ticker p + 1\<rparr> in
         if plateau_stop_steps p1 \<le> real (plateau_check_ticker p1)
         then
           (if prev_best_depth p1 = depth best
            then (True,
                  p1\<lparr>stop := True,
                     ticker_proxy :=
                       map_option (\<lambda>v. v + number_of_tiles_to_process p1 - int (depth best))
                         (ticker_proxy p1)\<rparr>)
            else (False, p1\<lparr>plateau_check_ticker := 0, prev_best_depth := depth best\<rparr>))
         else (False, p1))
      else (False, p))"

text \<open>
  \<open>successors\<close> is a generator that the search runs to its end before it touches
  the problem again, so the model returns the list of the children it yields and the
  problem after the last one. The cost \<open>inf\<close> that a dead end writes into its own
  node for debugging is not modelled: nothing reads it.
\<close>

text \<open>
  The last part of \<open>successors\<close>, from \<open>iyxs = ...\<close> on: the candidates of
  every frontier cell, the dead-end test, and the children.
\<close>

definition expand_node :: "'g env \<Rightarrow> 'g problem \<Rightarrow> node \<Rightarrow> real \<Rightarrow> error + node list \<times> 'g problem" where
  "expand_node E p nd cum_entropy =
     (let iyxs = set_order E (temp_world_open_super_tiles p) in
      case potential_collapses E p iyxs (depth nd) of
        Inl e \<Rightarrow> Inl e
      | Inr (pcs, p1) \<Rightarrow>
          if pcs = [] \<or> list_ex (\<lambda>r. fst (snd r) = None) pcs
          then Inr ([], p1)
          else yield_cells E p1 nd (depth nd) cum_entropy (zip iyxs pcs))"

definition successors :: "'g env \<Rightarrow> 'g problem \<Rightarrow> node \<Rightarrow> error + node list \<times> 'g problem" where
  "successors E p nd =
     (if stop_proxy p = Some True then Inl InterruptedError
      else
        case (if depth nd = 0
              then Inr (0, (open_nodes_on_depth_zero (p\<lparr>best_node := Some nd\<rparr>))
                             \<lparr>last_node := Some nd\<rparr>)
              else
                (case last_node p of
                   None \<Rightarrow> Inl AttributeError
                 | Some prior \<Rightarrow>
                     (case get_world_state p prior nd of
                        Inl e \<Rightarrow> Inl e
                      | Inr p1 \<Rightarrow>
                          (case get_new_temperature p1 (depth nd) (depth prior) of
                             Inl e \<Rightarrow> Inl e
                           | Inr t \<Rightarrow>
                               (case parent nd of
                                  None \<Rightarrow> Inl AttributeError
                                | Some par \<Rightarrow>
                                    Inr (extra par,
                                         p1\<lparr>min_temperature := t, last_node := Some nd\<rparr>)))))) of
          Inl e \<Rightarrow> Inl e
        | Inr (cum_entropy, p2) \<Rightarrow>
            (case best_node p2 of
               None \<Rightarrow> Inl AttributeError
             | Some bn \<Rightarrow>
                 (let p3 = (if depth bn < depth nd
                            then p2\<lparr>best_node := Some nd,
                                    ticker_proxy := map_option (\<lambda>v. v + 1) (ticker_proxy p2)\<rparr>
                            else p2);
                      best = (if depth bn < depth nd then nd else bn)
                  in if number_of_tiles_to_process p3 \<le> int (depth nd)
                     then Inr ([], p3\<lparr>stop := True\<rparr>)
                     else
                       (case plateau_check p3 best of
                          (True, p4) \<Rightarrow> Inr ([], p4)
                        | (False, p4) \<Rightarrow> expand_node E p4 nd cum_entropy))))"

definition goal_test :: "'g problem \<Rightarrow> bool" where
  "goal_test p = stop p"

text \<open>
  \<open>node_value\<close>, by which the search orders its fringe.
\<close>

definition node_value :: "'g problem \<Rightarrow> node \<Rightarrow> real" where
  "node_value p nd =
     (let rev_depth = real_of_int (1 + number_of_tiles_to_process p - int (depth nd));
          path_avg_entropy = extra nd / real (1 + depth nd)
      in rev_depth * rev_depth_w p + node_cost nd * node_cost_w p
           + path_avg_entropy * path_ent_avg_w p)"

text \<open>
  \<open>get_solution_state\<close>: the best node's actions, leaf to root, written into a copy
  of the starting grid or into zeros. It reads the depth of the best node first, which
  raises when no node was recorded.
\<close>

fun write_actions :: "ndarray \<Rightarrow> node option \<Rightarrow> nat \<Rightarrow> error + ndarray" where
  "write_actions a n 0 = Inr a"
| "write_actions a n (Suc k) =
     (case n of
        None \<Rightarrow> Inl AttributeError
      | Some nd \<Rightarrow>
          (case action nd of
             None \<Rightarrow> Inl TypeError
           | Some (c, tile_hash) \<Rightarrow>
               if tile_hash \<noteq> 0
               then (case np_offset a c of
                       Inl e \<Rightarrow> Inl e
                     | Inr i \<Rightarrow> write_actions (a\<lparr>data := (data a)[i := tile_hash]\<rparr>) (parent nd) k)
               else write_actions a (parent nd) k))"

definition get_solution_state :: "'g problem \<Rightarrow> error + ndarray" where
  "get_solution_state p =
     (case best_node p of
        None \<Rightarrow> Inl AttributeError
      | Some nd \<Rightarrow>
          write_actions
            (case starting_state p of
               None \<Rightarrow> np_zeros (shape0 (temp_world_state p)) (shape1 (temp_world_state p))
             | Some s \<Rightarrow> s)
            (Some nd) (depth nd))"

text \<open>The array with one in-bounds cell replaced.\<close>

definition placed :: "ndarray \<Rightarrow> int \<times> int \<Rightarrow> int \<Rightarrow> ndarray" where
  "placed a c t = a\<lparr>data := (data a)[offset a c := t]\<rparr>"

subsection \<open>The search and the run\<close>

text \<open>
  \<open>next(best_first_search(problem, graph=True))\<close> of the library py_search, which
  the repository imports: a fringe of nodes from which the node of least
  \<open>node_value\<close> is taken (the last pushed among equals: the library keeps the
  fringe sorted and pops from its end), a table \<open>closed\<close> of the best
  cost per state (\<open>seen\<close> below), and the loop
  \<^verbatim>\<open>
  while len(fringe) > 0:
      node = fringe.pop()
      if problem.goal_test(node, problem.goal): yield node
      for s in problem.successors(node):
          if s not in closed or s.cost() < closed[s]:
              fringe.push(s); closed[s] = s.cost()
  \<close>
  An exception of \<open>successors\<close> leaves the loop; an empty fringe ends the generator,
  which \<open>next\<close> reports as \<open>StopIteration\<close>. The loop has no bound of its own,
  so the model counts its iterations: \<open>None\<close> when the count runs out.
\<close>

fun pop_min :: "('a \<Rightarrow> real) \<Rightarrow> 'a list \<Rightarrow> ('a \<times> 'a list) option" where
  "pop_min f [] = None"
| "pop_min f (x # xs) =
     (case pop_min f xs of
        None \<Rightarrow> Some (x, [])
      | Some (y, ys) \<Rightarrow> if f x < f y then Some (x, xs) else Some (y, x # ys))"

fun push_all ::
  "node list \<Rightarrow> node list \<Rightarrow> ((nat \<times> int) \<rightharpoonup> real) \<Rightarrow> node list \<times> ((nat \<times> int) \<rightharpoonup> real)" where
  "push_all [] fringe seen = (fringe, seen)"
| "push_all (s # ss) fringe seen =
     (if (case seen (state s) of None \<Rightarrow> True | Some c \<Rightarrow> node_cost s < c)
      then push_all ss (fringe @ [s]) (seen(state s \<mapsto> node_cost s))
      else push_all ss fringe seen)"

fun search_loop ::
  "'g env \<Rightarrow> nat \<Rightarrow> 'g problem \<Rightarrow> node list \<Rightarrow> ((nat \<times> int) \<rightharpoonup> real)
     \<Rightarrow> ((error + node) \<times> 'g problem) option" where
  "search_loop E 0 p fringe seen = None"
| "search_loop E (Suc n) p fringe seen =
     (case pop_min (node_value p) fringe of
        None \<Rightarrow> Some (Inl StopIteration, p)
      | Some (nd, rest) \<Rightarrow>
          if goal_test p then Some (Inr nd, p)
          else
            (case successors E p nd of
               Inl e \<Rightarrow> Some (Inl e, p)
             | Inr (children, p') \<Rightarrow>
                 (case push_all children rest seen of
                    (fringe', seen') \<Rightarrow> search_loop E n p' fringe' seen')))"

definition best_first_search ::
  "'g env \<Rightarrow> nat \<Rightarrow> 'g problem \<Rightarrow> ((error + node) \<times> 'g problem) option" where
  "best_first_search E fuel p =
     search_loop E fuel p [initial_node] [state initial_node \<mapsto> node_cost initial_node]"

text \<open>
  \<open>generate_single\<close>: the result is \<open>None\<close> after an interruption, the
  solution state after a solution or an exhausted search; any other exception leaves
  the function.
\<close>

definition generate_single :: "'g env \<Rightarrow> nat \<Rightarrow> wfc_args \<Rightarrow> (error + ndarray option) option" where
  "generate_single E fuel i_kwargs =
     (case WFC_Problem_init E i_kwargs of
        Inl e \<Rightarrow> Some (Inl e)
      | Inr problem \<Rightarrow>
          (case best_first_search E fuel problem of
             None \<Rightarrow> None
           | Some (outcome, p) \<Rightarrow>
               (case outcome of
                  Inl e \<Rightarrow>
                    if e = InterruptedError then Some (Inr None)
                    else if e = StopIteration
                    then (case get_solution_state p of
                            Inl e' \<Rightarrow> Some (Inl e')
                          | Inr result \<Rightarrow> Some (Inr (Some result)))
                    else Some (Inl e)
                | Inr solution \<Rightarrow>
                    (case get_solution_state p of
                       Inl e' \<Rightarrow> Some (Inl e')
                     | Inr result \<Rightarrow> Some (Inr (Some result))))))"

text \<open>The arguments of a default run on an empty 2x2 grid with the cancellation flag set.\<close>

definition cancelled_args :: wfc_args where
  "cancelled_args = (demo_args (np_zeros 2 2))\<lparr>kw_stop_proxy := Some True\<rparr>"

text \<open>
  A run with a starting grid. The sample is one image of 3x3 tiles, all of colour 7 but
  the one right of the centre, which has colour 5; the starting grid is 2x3 with the two
  right cells of its upper row decided. \<open>bug_problem\<close> is the problem the
  constructor builds; \<open>node_A\<close> places tile 7 at \<open>(0, 0)\<close> and
  \<open>node_B\<close>, its child, places tile 7 at \<open>(1, 0)\<close>.
\<close>

definition bug_img :: sliced_img where
  "bug_img = \<lparr>ycell_len = 3, xcell_len = 3, tiles = [[7], [7], [7], [7], [7], [5], [7], [7], [7]]\<rparr>"

definition bug_sample :: wfc_sample where
  "bug_sample = \<lparr>tile_data = [5 \<mapsto> ([5], 1 / 9), 7 \<mapsto> ([7], 8 / 9)],
                 super_tile_data = [([7, 7, 7, 7, 7, 5, 7, 7, 7], 1)]\<rparr>"

definition bug_grid :: ndarray where
  "bug_grid = \<lparr>shape0 = 2, shape1 = 3, data = [0, 5, 5, 0, 0, 0]\<rparr>"

definition bug_args :: wfc_args where
  "bug_args = (demo_args bug_grid)\<lparr>kw_sample := bug_sample\<rparr>"

definition bug_problem :: "nat problem" where
  "bug_problem =
     (demo_problem bug_grid)
       \<lparr>sample := bug_sample,
        tile_counts := (\<lambda>k. if k \<in> dom (tile_data bug_sample) then Some 0 else None)\<rparr>"

definition node_A :: node where
  "node_A = Node (1, 17) (Some initial_node) (Some ((0, 0), 7)) 0 0"

definition node_B :: node where
  "node_B = Node (2, 24) (Some node_A) (Some ((1, 0), 7)) 0 0"

text \<open>
  The states of that run. \<open>bug_p1\<close> is the problem after the expansion of the
  root: the frontier of the starting grid is \<open>{(0, 0)}\<close>, the ticker has
  advanced and the generator has been read twice. \<open>grid_A\<close> and
  \<open>grid_B\<close> are the grids of \<open>node_A\<close> and \<open>node_B\<close>.
  \<open>bug_pA\<close> is \<open>bug_p1\<close> with the placement of \<open>node_A\<close>
  applied, and \<open>bug_p2\<close> the problem after the expansion of
  \<open>node_A\<close>, with the new temperature. \<open>bug_p3\<close> is
  \<open>bug_p2\<close> with the placement of \<open>node_B\<close> applied, and
  \<open>bug_p4\<close> differs from \<open>bug_p2\<close> in the frontier alone.
\<close>

definition bug_p1 :: "nat problem" where
  "bug_p1 = bug_problem\<lparr>best_node := Some initial_node, temp_world_open_super_tiles := {(0, 0)},
          last_node := Some initial_node, plateau_check_ticker := 1, rng := 2\<rparr>"

definition grid_A :: ndarray where "grid_A = bug_grid\<lparr>data := [7, 5, 5, 0, 0, 0]\<rparr>"

definition grid_B :: ndarray where "grid_B = bug_grid\<lparr>data := [7, 5, 5, 7, 0, 0]\<rparr>"

definition bug_pA :: "nat problem" where
  "bug_pA = bug_p1\<lparr>temp_world_state := grid_A, tile_counts := (tile_counts bug_p1)(7 \<mapsto> 1),
          temp_world_open_super_tiles := {(1, 0)}\<rparr>"

definition bug_p2 :: "nat problem" where
  "bug_p2 = bug_pA\<lparr>min_temperature := 5, last_node := Some node_A, best_node := Some node_A,
          plateau_check_ticker := 2, rng := 4\<rparr>"

definition bug_p3 :: "nat problem" where
  "bug_p3 = bug_p2\<lparr>temp_world_state := grid_B, tile_counts := (tile_counts bug_p2)(7 \<mapsto> 2),
          temp_world_open_super_tiles := {(1, 1)}\<rparr>"

definition bug_p4 :: "nat problem" where
  "bug_p4 = bug_p2\<lparr>temp_world_open_super_tiles := {(1, 0), (1, 1)}\<rparr>"

section \<open>Theorems: the catalog\<close>

lemma prepare_uniform_img:
  "prepare first_byte (uniform_img c) = ([c \<mapsto> ([c], 1)], [(replicate 9 c, 1)])"
  by (simp add: prepare_def uniform_img_def np_unique_def dict_zip_def window3_def
      first_byte_def numeral_eq_Suc)

text \<open>
  C1. The merged frequency of a tile should be the sum of its per-sample frequencies over
  the samples in which it occurs. The code adds, for a tile that is absent from a later
  sample, the tile's accumulated frequency to itself: on two one-colour samples of
  colours 1 and 2 the tile of colour 1 has frequency 1 in the first sample and occurs in
  no other, and the catalog stores 2.
\<close>

theorem merged_freq_doubles_absent_tile:
  "(case WFC_Sample_init first_byte [uniform_img 1, uniform_img 2] of
      Inl e \<Rightarrow> None
    | Inr s \<Rightarrow> map_option snd (tile_data s 1)) = Some 2
   \<and> spec_merged_freq first_byte [uniform_img 1, uniform_img 2] 1 = 1"
  by (simp add: WFC_Sample_init_def prepare_uniform_img merge_tuples_def
      merge_tile_data_def spec_merged_freq_def)

section \<open>Theorems: construction, depth adjustment, temperature\<close>

lemma count_nonzero_full:
  "0 \<notin> set (data g) \<Longrightarrow> count_nonzero g = length (data g)"
  unfolding count_nonzero_def
  by (rule arg_cong[where f=length]) (simp add: filter_id_conv, metis)

lemma solve_fit:
  "t \<noteq> 0 \<Longrightarrow>
   linalg_solve3 ((0, 0, 1), (t ^ 2, t, 1), ((t / 2) ^ 2, t / 2, 1)) (t, t, 0) = Inr [4 / t, - 4, t]"
  unfolding linalg_solve3_def
  by (simp add: det3_def power2_eq_square power3_eq_cube field_simps)

lemma solve_fit_zero:
  "t = 0 \<Longrightarrow> linalg_solve3 ((0, 0, 1), (t ^ 2, t, 1), ((t / 2) ^ 2, t / 2, 1)) (t, t, 0) = Inl LinAlgError"
  unfolding linalg_solve3_def
  by (simp add: det3_def)

lemma init_zero:
  assumes "tiles_to_fill (kw_starting_state kw) = 0"
  shows "WFC_Problem_init E kw = Inl LinAlgError"
proof -
  have "real_of_int (int (np_size (kw_starting_state kw)) - int (count_nonzero (kw_starting_state kw))) = 0"
    using assms by (simp add: tiles_to_fill_def)
  then show ?thesis
    unfolding WFC_Problem_init_def Let_def
    by (simp only: solve_fit_zero sum.case)
qed

lemma init_nonzero:
  assumes "tiles_to_fill (kw_starting_state kw) \<noteq> 0"
  shows "\<exists>p. WFC_Problem_init E kw = Inr p
       \<and> number_of_tiles_to_process p = tiles_to_fill (kw_starting_state kw)
       \<and> tile_freq_adjustment_poly p = [4 / real_of_int (tiles_to_fill (kw_starting_state kw)), - 4, real_of_int (tiles_to_fill (kw_starting_state kw))]
       \<and> max_freq_adjust p = kw_max_freq_adjust kw
       \<and> min_temperature p = kw_starting_temperature kw
       \<and> min_min_temperature p = kw_min_min_temperature kw
       \<and> max_min_temperature p = kw_max_min_temperature kw
       \<and> stop_proxy p = kw_stop_proxy kw
       \<and> best_node p = None
       \<and> temp_world_state p = kw_starting_state kw
       \<and> tile_counts p = (\<lambda>k. if k \<in> dom (tile_data (kw_sample kw)) then Some 0 else None)"
proof -
  have "real_of_int (int (np_size (kw_starting_state kw)) - int (count_nonzero (kw_starting_state kw))) \<noteq> 0"
    using assms by (simp add: tiles_to_fill_def)
  from solve_fit[OF this] show ?thesis
    unfolding WFC_Problem_init_def Let_def tiles_to_fill_def
    by (simp only: sum.case) simp
qed

lemma init_Inr:
  assumes "WFC_Problem_init E kw = Inr p"
  shows "tiles_to_fill (kw_starting_state kw) \<noteq> 0"
  using assms init_zero[of kw E] by auto

text \<open>
  C2. A starting grid with no undecided cell should make the engine stop at depth 0 and
  return the grid. The constructor fits the depth-adjustment quadratic through
  \<open>(0, T)\<close>, \<open>(T, T)\<close> and \<open>(T/2, 0)\<close>; with
  \<open>T = 0\<close> cells to fill the three rows of the system coincide, the matrix is
  singular and the constructor raises, so no engine exists to run.
\<close>

theorem full_grid_init_raises:
  assumes "length (data (kw_starting_state kw)) = np_size (kw_starting_state kw)"
    and "0 \<notin> set (data (kw_starting_state kw))"
  shows "WFC_Problem_init E kw = Inl LinAlgError"
  using assms by (intro init_zero) (simp add: tiles_to_fill_def count_nonzero_full)

text \<open>
  The 1x1 grid holding the tile 7.
\<close>

theorem full_grid_init_raises_witness:
  "WFC_Problem_init demo_env (demo_args \<lparr>shape0 = 1, shape1 = 1, data = [7]\<rparr>) = Inl LinAlgError"
  using full_grid_init_raises[of "demo_args \<lparr>shape0 = 1, shape1 = 1, data = [7]\<rparr>" demo_env]
  by (simp add: demo_args_def np_size_def)

lemma quadratic_unique:
  fixes T :: real
  assumes T0: "T \<noteq> 0"
    and q0: "a * 0 ^ 2 + b * 0 + c = T"
    and qT: "a * T ^ 2 + b * T + c = T"
    and qh: "a * (T / 2) ^ 2 + b * (T / 2) + c = 0"
  shows "a = 4 / T \<and> b = - 4 \<and> c = T"
proof -
  from q0 have c: "c = T" by simp
  from qT c have "T * (a * T + b) = 0"
    by (simp add: algebra_simps power2_eq_square)
  with T0 have ab: "b = - (a * T)" by (simp add: add_eq_0_iff)
  from qh c ab have "T * (4 - a * T) = 0"
    by (simp add: algebra_simps power2_eq_square)
  with T0 have "a * T = 4" by simp
  with T0 have a: "a = 4 / T" by (simp add: field_simps)
  from ab a T0 have "b = - 4" by simp
  with a c show ?thesis by simp
qed

text \<open>
  C3 (amended). The depth adjustment of the cost model is
  \<open>strength * (1 - Q(d) / T)\<close> for the quadratic \<open>Q\<close> with
  \<open>Q(0) = T\<close>, \<open>Q(T) = T\<close> and \<open>Q(T/2) = 0\<close>: any quadratic
  with these three values gives the value the code computes, at every depth and for
  every strength.
\<close>

theorem depth_adjustment_quadratic:
  assumes "WFC_Problem_init E kw = Inr p"
    and "T = real_of_int (number_of_tiles_to_process p)"
    and "Q = (\<lambda>x. a * x ^ 2 + b * x + c)"
    and "Q 0 = T" and "Q T = T" and "Q (T / 2) = 0"
  shows "tile_freq_adjustment_func p d = max_freq_adjust p * (1 - Q (real d) / T)"
proof -
  from init_nonzero[OF init_Inr[OF assms(1)], of E] obtain p' where
    p': "WFC_Problem_init E kw = Inr p'"
    and n': "number_of_tiles_to_process p' = tiles_to_fill (kw_starting_state kw)"
    and cs': "tile_freq_adjustment_poly p' = [4 / real_of_int (tiles_to_fill (kw_starting_state kw)), - 4, real_of_int (tiles_to_fill (kw_starting_state kw))]"
    by blast
  from p' assms(1) have pp: "p' = p" by simp
  from init_Inr[OF assms(1)] n' pp assms(2) have T0: "T \<noteq> 0" by simp
  have cs: "tile_freq_adjustment_poly p = [4 / T, - 4, T]"
    using cs' n' pp assms(2) by simp
  from quadratic_unique[OF T0, of a b c] assms(3-6)
  have abc: "a = 4 / T" "b = - 4" "c = T" by simp_all
  have "poly1d (tile_freq_adjustment_poly p) (real d) = Q (real d)"
    unfolding cs assms(3) abc by (simp add: poly1d_def power2_eq_square algebra_simps)
  then show ?thesis
    using assms(2) by (simp add: tile_freq_adjustment_func_def)
qed


text \<open>
  Two cells to fill, strength 1, depth 1: the quadratic is \<open>2 x\<^sup>2 - 4 x + 2\<close>
  and the adjustment is at its peak 1.
\<close>

theorem depth_adjustment_quadratic_witness:
  "\<exists>p. WFC_Problem_init demo_env (demo_args (np_zeros 1 2)) = Inr p
     \<and> tile_freq_adjustment_func p 1 = 1"
proof -
  from init_nonzero[of "demo_args (np_zeros 1 2)" demo_env] obtain p where
    p: "WFC_Problem_init demo_env (demo_args (np_zeros 1 2)) = Inr p"
    and n: "number_of_tiles_to_process p = 2" and m: "max_freq_adjust p = 1"
    by (auto simp add: demo_args_def np_zeros_def tiles_to_fill_def np_size_def count_nonzero_def)
  from depth_adjustment_quadratic[OF p, of 2 "\<lambda>x. 2 * x ^ 2 + (- 4) * x + 2" 2 "- 4" 2 1] n m
  have "tile_freq_adjustment_func p 1 = 1" by simp
  with p show ?thesis by blast
qed

lemma spec_Q_points: "T \<noteq> 0 \<Longrightarrow> spec_Q T 0 = 0 \<and> spec_Q T T = 0 \<and> spec_Q T (T / 2) = T"
  by (simp add: spec_Q_def power2_eq_square field_simps)

text \<open>
  C3 as stated fails. With two cells to fill and strength 1 the code's adjustment at
  depth 0 is 0, while the quadratic through \<open>(0, 0)\<close>, \<open>(T, 0)\<close>,
  \<open>(T/2, T)\<close> gives \<open>1 * (1 - 0 / 2) = 1\<close>.
\<close>

theorem depth_adjustment_counterexample:
  "(case WFC_Problem_init demo_env (demo_args (np_zeros 1 2)) of
      Inl e \<Rightarrow> False
    | Inr p \<Rightarrow> tile_freq_adjustment_func p 0 = 0
         \<and> max_freq_adjust p * (1 - spec_Q (real_of_int (number_of_tiles_to_process p)) 0
                                       / real_of_int (number_of_tiles_to_process p)) = 1)"
proof -
  from init_nonzero[of "demo_args (np_zeros 1 2)" demo_env] obtain p where
    p: "WFC_Problem_init demo_env (demo_args (np_zeros 1 2)) = Inr p"
    and n: "number_of_tiles_to_process p = 2" and m: "max_freq_adjust p = 1"
    and cs: "tile_freq_adjustment_poly p = [2, - 4, 2]"
    by (auto simp add: demo_args_def np_zeros_def tiles_to_fill_def np_size_def count_nonzero_def)
  show ?thesis
    unfolding p using n m cs by (simp add: tile_freq_adjustment_func_def poly1d_def spec_Q_def)
qed

text \<open>
  C4 (amended). With \<open>T > 0\<close> cells to fill, the temperature ratio is
  \<open>min(0.9, |prior_depth - depth| * 3 / sqrt(T))\<close> whenever the depth differs
  from the prior depth, in either direction, and \<open>(depth / T)\<^sup>2\<^sup>.\<^sup>5 / 80\<close>
  when the depth is unchanged; the new temperature is
  \<open>floor * ratio + current * (1 - ratio)\<close> with floor the maximal minimum
  temperature when the depth did not increase and the minimal one when it increased.
\<close>

theorem temperature_update:
  assumes "number_of_tiles_to_process p \<noteq> 0"
    and "T = real_of_int (number_of_tiles_to_process p)"
    and "ratio = (if d \<noteq> pd then min (9 / 10) (\<bar>real pd - real d\<bar> * 3 / sqrt T)
                  else (real d / T) powr (5 / 2) / 80)"
    and "floor_t = (if d \<le> pd then max_min_temperature p else min_min_temperature p)"
  shows "temp_ratio p d pd = Inr ratio
       \<and> get_new_temperature p d pd = Inr (floor_t * ratio + min_temperature p * (1 - ratio))"
proof -
  have "\<bar>real pd - real d\<bar> = real_of_int \<bar>int pd - int d\<bar>" by simp
  then have "temp_ratio p d pd = Inr ratio"
    using assms by (simp add: temp_ratio_def Let_def)
  then show ?thesis
    using assms(4) by (simp add: get_new_temperature_def)
qed

text \<open>
  One cell to fill, advancing from depth 0 to depth 1 at the default temperatures.
\<close>

theorem temperature_update_witness:
  "\<exists>p. WFC_Problem_init demo_env (demo_args (np_zeros 1 1)) = Inr p
     \<and> temp_ratio p 1 0 = Inr (9 / 10) \<and> get_new_temperature p 1 0 = Inr 5"
proof -
  from init_nonzero[of "demo_args (np_zeros 1 1)" demo_env] obtain p where
    p: "WFC_Problem_init demo_env (demo_args (np_zeros 1 1)) = Inr p"
    and n: "number_of_tiles_to_process p = 1"
    and t: "min_temperature p = 50" "min_min_temperature p = 0" "max_min_temperature p = 80"
    by (auto simp add: demo_args_def np_zeros_def tiles_to_fill_def np_size_def count_nonzero_def)
  from temperature_update[of p 1 "9 / 10" 1 0 0] n t
  have "temp_ratio p 1 0 = Inr (9 / 10) \<and> get_new_temperature p 1 0 = Inr 5" by simp
  with p show ?thesis by blast
qed

text \<open>
  C4 as stated fails. With one cell to fill, advancing from depth 0 to depth 1 the code's
  ratio is 0.9 and the new temperature 5, where the claim gives 1/80 and 50.375; at an
  unchanged depth 1 the code's ratio is 1/80, where the claim gives 0.
\<close>

theorem temperature_update_counterexample:
  "(case WFC_Problem_init demo_env (demo_args (np_zeros 1 1)) of
      Inl e \<Rightarrow> False
    | Inr p \<Rightarrow> temp_ratio p 1 0 = Inr (9 / 10)
         \<and> spec_temp_ratio (real_of_int (number_of_tiles_to_process p)) 1 0 = 1 / 80
         \<and> get_new_temperature p 1 0 = Inr 5
         \<and> spec_new_temperature p 1 0 = 403 / 8
         \<and> temp_ratio p 1 1 = Inr (1 / 80)
         \<and> spec_temp_ratio (real_of_int (number_of_tiles_to_process p)) 1 1 = 0)"
proof -
  from init_nonzero[of "demo_args (np_zeros 1 1)" demo_env] obtain p where
    p: "WFC_Problem_init demo_env (demo_args (np_zeros 1 1)) = Inr p"
    and n: "number_of_tiles_to_process p = 1"
    and t: "min_temperature p = 50" "min_min_temperature p = 0" "max_min_temperature p = 80"
    by (auto simp add: demo_args_def np_zeros_def tiles_to_fill_def np_size_def count_nonzero_def)
  show ?thesis
    unfolding p using n t
    by (simp add: temp_ratio_def get_new_temperature_def spec_temp_ratio_def
        spec_new_temperature_def)
qed

section \<open>Theorems: the world state manager\<close>

lemma indices_to_check_4:
  "indices_to_check False a (y, x) =
     filter (in_bounds a) [(y - 1, x), (y, x - 1), (y, x + 1), (y + 1, x)]"
  by (simp add: indices_to_check_def Let_def nth_Cons' add.commute del: filter.simps)

lemma indices_to_check_8:
  "indices_to_check True a (y, x) =
     filter (in_bounds a) [(y - 1, x - 1), (y - 1, x), (y - 1, x + 1), (y, x - 1), (y, x + 1),
       (y + 1, x - 1), (y + 1, x), (y + 1, x + 1)]"
  by (simp add: indices_to_check_def Let_def nth_Cons' add.commute del: filter.simps)

lemma self_not_neighbour: "c \<notin> set (indices_to_check use8 a c)"
  by (cases c; cases use8) (auto simp add: indices_to_check_4 indices_to_check_8)

lemma neighbour_in_bounds: "n \<in> set (indices_to_check use8 a c) \<Longrightarrow> in_bounds a n"
  by (simp add: indices_to_check_def Let_def)

lemma foldl_close_step:
  "foldl (close_step p) W ns = W \<union> {n \<in> set ns. cell (temp_world_state p) n = 0}"
  by (induction ns arbitrary: W) (auto simp add: close_step_def)

lemma foldl_reopen_step:
  "foldl (reopen_step p) W ns = W - {n \<in> set ns. \<not> decided_around p n}"
  by (induction ns arbitrary: W) (auto simp add: reopen_step_def)


lemma np_offset_in_bounds: "in_bounds a c \<Longrightarrow> np_offset a c = Inr (offset a c)"
  by (simp add: np_offset_def np_index_def in_bounds_def offset_def)

lemma offset_less:
  assumes "in_bounds a c" and "length (data a) = np_size a"
  shows "offset a c < length (data a)"
proof -
  from assms(1) have y: "nat (fst c) < shape0 a" and x: "nat (snd c) < shape1 a"
    by (auto simp add: in_bounds_def)
  have "nat (fst c) * shape1 a + nat (snd c) < Suc (nat (fst c)) * shape1 a"
    using x by simp
  also have "\<dots> \<le> shape0 a * shape1 a"
    using y by (intro mult_le_mono1) simp
  finally show ?thesis using assms(2) by (simp add: offset_def np_size_def)
qed

lemma offset_inj:
  assumes "in_bounds a c" and "in_bounds a n" and "offset a c = offset a n"
  shows "c = n"
proof -
  let ?w = "shape1 a"
  from assms(1,2) have xs: "nat (snd c) < ?w" "nat (snd n) < ?w"
    and nn: "0 \<le> fst c" "0 \<le> snd c" "0 \<le> fst n" "0 \<le> snd n"
    by (auto simp add: in_bounds_def)
  from assms(3) have e: "nat (snd c) + nat (fst c) * ?w = nat (snd n) + nat (fst n) * ?w"
    by (simp add: offset_def add.commute)
  from xs have "(nat (snd c) + nat (fst c) * ?w) div ?w = nat (fst c)"
    and "(nat (snd n) + nat (fst n) * ?w) div ?w = nat (fst n)"
    and "(nat (snd c) + nat (fst c) * ?w) mod ?w = nat (snd c)"
    and "(nat (snd n) + nat (fst n) * ?w) mod ?w = nat (snd n)"
    by simp_all
  with e have "nat (fst c) = nat (fst n)" "nat (snd c) = nat (snd n)" by simp_all
  with nn have "fst c = fst n" "snd c = snd n" by linarith+
  then show ?thesis by (simp add: prod_eq_iff)
qed

lemma cell_offset: "cell a c = data a ! offset a c"
  by (simp add: cell_def offset_def)

lemma in_bounds_data [simp]: "in_bounds (a\<lparr>data := d\<rparr>) c = in_bounds a c"
  by (simp add: in_bounds_def)

lemma offset_data [simp]: "offset (a\<lparr>data := d\<rparr>) c = offset a c"
  by (simp add: offset_def)

lemma indices_to_check_data [simp]:
  "indices_to_check use8 (a\<lparr>data := d\<rparr>) c = indices_to_check use8 a c"
  by (simp add: indices_to_check_def Let_def cong: filter_cong)

lemma cell_update_other:
  assumes "in_bounds a c" and "in_bounds a n" and "n \<noteq> c"
  shows "cell (a\<lparr>data := (data a)[offset a c := v]\<rparr>) n = cell a n"
proof -
  have "offset a c \<noteq> offset a n"
    using offset_inj[OF assms(1,2)] assms(3) by blast
  then show ?thesis by (simp add: cell_offset)
qed


lemma apply_action_eq:
  assumes "in_bounds (temp_world_state p) c" and "tile_counts p t = Some k"
    and "c \<in> temp_world_open_super_tiles p"
  shows "apply_action p (Some (c, t)) =
     Inr (p\<lparr>temp_world_state :=
              (temp_world_state p)\<lparr>data := (data (temp_world_state p))[offset (temp_world_state p) c := t]\<rparr>,
            tile_counts := (tile_counts p)(t \<mapsto> k + 1),
            temp_world_open_super_tiles :=
              (temp_world_open_super_tiles p - {c}) \<union>
              {n \<in> set (indices_to_check (use_8cardinals p) (temp_world_state p) c).
                 cell ((temp_world_state p)\<lparr>data := (data (temp_world_state p))[offset (temp_world_state p) c := t]\<rparr>) n = 0}\<rparr>)"
  using assms
  by (simp add: apply_action_def np_offset_in_bounds update_open_nodes_def Let_def foldl_close_step)

lemma revert_action_eq:
  assumes "in_bounds (temp_world_state p) c"
    and "tile_counts p (cell (temp_world_state p) c) = Some k"
  shows "revert_action p (Some (c, t)) =
     Inr (p\<lparr>tile_counts := (tile_counts p)(cell (temp_world_state p) c \<mapsto> k - 1),
            temp_world_state :=
              (temp_world_state p)\<lparr>data := (data (temp_world_state p))[offset (temp_world_state p) c := 0]\<rparr>,
            temp_world_open_super_tiles :=
              insert c (temp_world_open_super_tiles p) -
              {n \<in> set (indices_to_check (use_8cardinals p) (temp_world_state p) c).
                 \<not> decided_around (p\<lparr>temp_world_state :=
                      (temp_world_state p)\<lparr>data := (data (temp_world_state p))[offset (temp_world_state p) c := 0]\<rparr>\<rparr>) n}\<rparr>)"
  using assms
  by (simp add: revert_action_def np_offset_in_bounds update_open_nodes_def Let_def
      foldl_reopen_step cell_offset decided_around_def)


lemma decided_around_cong:
  "temp_world_state q = temp_world_state p \<Longrightarrow> use_8cardinals q = use_8cardinals p \<Longrightarrow>
   decided_around q n = decided_around p n"
  by (simp add: decided_around_def)

text \<open>
  Where the frontier is exact around the coordinate, a placement and its reversal cancel.
  Let the coordinate be inside the grid, undecided and in the frontier, let the tile be a
  key of the occurrence counters, and let every neighbour of the coordinate that is in
  the frontier have a decided cell around it, and every undecided neighbour with a
  decided cell around it be in the frontier. Then \<open>apply_action\<close> succeeds and
  \<open>revert_action\<close> after it returns the problem it started from, field by field.
  The frontier that \<open>open_nodes_on_depth_zero\<close> builds from a starting grid is
  not exact; the last section runs the code on such a grid.
\<close>

lemma apply_then_revert_exact_frontier:
  assumes wf: "length (data (temp_world_state p)) = np_size (temp_world_state p)"
    and inb: "in_bounds (temp_world_state p) c"
    and und: "cell (temp_world_state p) c = 0"
    and fr: "c \<in> temp_world_open_super_tiles p"
    and key: "tile_counts p t = Some k"
    and cons: "\<forall>n \<in> set (indices_to_check (use_8cardinals p) (temp_world_state p) c).
        (n \<in> temp_world_open_super_tiles p \<longrightarrow> decided_around p n) \<and>
        (cell (temp_world_state p) n = 0 \<and> decided_around p n \<longrightarrow> n \<in> temp_world_open_super_tiles p)"
  shows "\<exists>p'. apply_action p (Some (c, t)) = Inr p' \<and> revert_action p' (Some (c, t)) = Inr p"
proof -
  define g where "g = temp_world_state p"
  define i where "i = offset g c"
  define F where "F = temp_world_open_super_tiles p"
  define idx where "idx = indices_to_check (use_8cardinals p) g c"
  define g' where "g' = g\<lparr>data := (data g)[i := t]\<rparr>"
  define F' where "F' = (F - {c}) \<union> {n \<in> set idx. cell g' n = 0}"
  define p' where "p' = p\<lparr>temp_world_state := g', tile_counts := (tile_counts p)(t \<mapsto> k + 1),
    temp_world_open_super_tiles := F'\<rparr>"
  have ap: "apply_action p (Some (c, t)) = Inr p'"
    using apply_action_eq[OF inb key fr]
    unfolding p'_def F'_def g'_def idx_def i_def F_def g_def by simp
  have ilen: "i < length (data g)"
    using offset_less[OF inb wf] by (simp add: i_def g_def)
  have g'c: "cell g' c = t"
    using ilen by (simp add: g'_def cell_offset i_def)
  have inb': "in_bounds (temp_world_state p') c"
    using inb by (simp add: p'_def g'_def g_def)
  have key': "tile_counts p' (cell (temp_world_state p') c) = Some (k + 1)"
    using g'c by (simp add: p'_def)
  have gi0: "data g ! i = 0"
    using und by (simp add: cell_offset i_def g_def)
  have back_g: "g'\<lparr>data := (data g')[offset g' c := 0]\<rparr> = g"
  proof -
    have "(data g)[i := 0] = data g"
      using gi0 list_update_id[of "data g" i] by simp
    then show ?thesis by (simp add: g'_def i_def[symmetric])
  qed
  have back_counts: "(tile_counts p')(cell (temp_world_state p') c \<mapsto> k + 1 - 1) = tile_counts p"
    using key g'c by (auto simp add: p'_def)
  have cell_nb: "cell g' n = cell g n" if "n \<in> set idx" for n
  proof -
    from that have "in_bounds g n" and "n \<noteq> c"
      using neighbour_in_bounds[of n "use_8cardinals p" g c] self_not_neighbour[of c "use_8cardinals p" g]
      by (auto simp add: idx_def)
    then show ?thesis
      using cell_update_other[of g c n t] inb by (simp add: g'_def i_def g_def)
  qed
  have cnotin: "c \<notin> set idx"
    using self_not_neighbour[of c "use_8cardinals p" g] by (simp add: idx_def)
  have back_F: "insert c F' - {n \<in> set idx. \<not> decided_around p n} = F"
  proof (rule set_eqI)
    fix n
    show "n \<in> insert c F' - {n \<in> set idx. \<not> decided_around p n} \<longleftrightarrow> n \<in> F"
    proof (cases "n \<in> set idx")
      case True
      with cnotin have nc: "n \<noteq> c" by auto
      from cons True have c1: "n \<in> F \<longrightarrow> decided_around p n"
        and c2: "cell g n = 0 \<and> decided_around p n \<longrightarrow> n \<in> F"
        by (auto simp add: idx_def g_def F_def)
      show ?thesis
        using True nc c1 c2 cell_nb[OF True] by (auto simp add: F'_def)
    next
      case False
      then show ?thesis
        using fr by (auto simp add: F'_def F_def)
    qed
  qed
  have dec: "decided_around (p'\<lparr>temp_world_state := g\<rparr>) n = decided_around p n" for n
    by (rule decided_around_cong) (simp_all add: p'_def g_def)
  have sel: "temp_world_state p' = g'" "use_8cardinals p' = use_8cardinals p"
    "temp_world_open_super_tiles p' = F'"
    by (simp_all add: p'_def)
  have Y: "(temp_world_state p')\<lparr>data := (data (temp_world_state p'))[offset (temp_world_state p') c := 0]\<rparr> = g"
    using back_g by (simp only: sel)
  have Z: "insert c (temp_world_open_super_tiles p') -
      {n \<in> set (indices_to_check (use_8cardinals p') (temp_world_state p') c).
         \<not> decided_around (p'\<lparr>temp_world_state := g\<rparr>) n} = F"
  proof -
    have "indices_to_check (use_8cardinals p') (temp_world_state p') c = idx"
      by (simp add: sel g'_def idx_def)
    then show ?thesis using back_F by (simp only: dec sel)
  qed
  have "revert_action p' (Some (c, t)) =
      Inr (p'\<lparr>tile_counts := tile_counts p, temp_world_state := g,
            temp_world_open_super_tiles := F\<rparr>)"
    using revert_action_eq[OF inb' key', of t] by (simp only: back_counts Y Z)
  also have "p'\<lparr>tile_counts := tile_counts p, temp_world_state := g,
            temp_world_open_super_tiles := F\<rparr> = p"
    by (simp add: p'_def g_def F_def)
  finally show ?thesis using ap by blast
qed


lemma init_record:
  assumes "tiles_to_fill (kw_starting_state kw) \<noteq> 0"
  shows "WFC_Problem_init E kw = Inr
            \<lparr>stop_proxy = kw_stop_proxy kw,
             ticker_proxy = kw_ticker_proxy kw,
             rng = default_rng E (kw_seed kw),
             sample = kw_sample kw,
             number_of_tiles_to_process = tiles_to_fill (kw_starting_state kw),
             world_tdims = (shape0 (kw_starting_state kw), shape1 (kw_starting_state kw)),
             temp_world_state = kw_starting_state kw,
             starting_state = (if count_nonzero (kw_starting_state kw) > 0
                               then Some (kw_starting_state kw) else None),
             temp_world_open_super_tiles = {},
             min_temperature = kw_starting_temperature kw,
             min_min_temperature = kw_min_min_temperature kw,
             max_min_temperature = kw_max_min_temperature kw,
             rev_depth_w = kw_reverse_depth_w kw,
             node_cost_w = kw_node_cost_w kw,
             path_ent_avg_w = kw_path_entropy_average_w kw,
             best_node = None,
             prev_best_depth = 0,
             last_node = None,
             plateau_check_ticker = 0,
             plateau_stop_steps =
               (if kw_plateau_check_interval kw = - 1
                then real (shape0 (kw_starting_state kw)) * real (shape1 (kw_starting_state kw)) / 2
                else real_of_int (kw_plateau_check_interval kw)),
             stop = False,
             use_8cardinals = kw_use_8_cardinals kw,
             tile_counts = (\<lambda>k. if k \<in> dom (tile_data (kw_sample kw)) then Some 0 else None),
             max_freq_adjust = kw_max_freq_adjust kw,
             tile_freq_adjustment_poly =
               [4 / real_of_int (tiles_to_fill (kw_starting_state kw)), - 4,
                real_of_int (tiles_to_fill (kw_starting_state kw))]\<rparr>"
proof -
  have "real_of_int (int (np_size (kw_starting_state kw)) - int (count_nonzero (kw_starting_state kw))) \<noteq> 0"
    using assms by (simp add: tiles_to_fill_def)
  from solve_fit[OF this] show ?thesis
    unfolding WFC_Problem_init_def Let_def tiles_to_fill_def
    by (simp only: sum.case)
qed

lemma init_demo:
  "tiles_to_fill g \<noteq> 0 \<Longrightarrow> WFC_Problem_init demo_env (demo_args g) = Inr (demo_problem g)"
  using init_record[of "demo_args g" demo_env]
  by (simp add: demo_args_def demo_env_def demo_problem_def)

lemma open_nodes_no_start:
  "starting_state p = None \<Longrightarrow>
   open_nodes_on_depth_zero p =
     p\<lparr>temp_world_open_super_tiles :=
         insert (int (fst (world_tdims p) div 2), int (snd (world_tdims p) div 2))
           (temp_world_open_super_tiles p)\<rparr>"
  by (simp add: open_nodes_on_depth_zero_def)

lemma count_nonzero_zeros [simp]: "count_nonzero (np_zeros h w) = 0"
  by (simp add: count_nonzero_def np_zeros_def)

lemma demo_problem_sel [simp]:
  "temp_world_state (demo_problem g) = g"
  "use_8cardinals (demo_problem g) = False"
  "temp_world_open_super_tiles (demo_problem g) = {}"
  "tile_counts (demo_problem g) = (\<lambda>k. if k = 7 then Some 0 else None)"
  "starting_state (demo_problem g) = (if count_nonzero g > 0 then Some g else None)"
  "world_tdims (demo_problem g) = (shape0 g, shape1 g)"
  by (auto simp add: demo_problem_def demo_sample_def)

lemma sel:
  "temp_world_state (open_nodes_on_depth_zero (demo_problem (np_zeros 1 2))) = np_zeros 1 2"
  "use_8cardinals (open_nodes_on_depth_zero (demo_problem (np_zeros 1 2))) = False"
  "temp_world_open_super_tiles (open_nodes_on_depth_zero (demo_problem (np_zeros 1 2))) = {(0, 1)}"
  "tile_counts (open_nodes_on_depth_zero (demo_problem (np_zeros 1 2))) 7 = Some 0"
  by (simp_all add: open_nodes_no_start) (simp add: np_zeros_def)


lemma cell_zeros: "in_bounds (np_zeros h w) c \<Longrightarrow> cell (np_zeros h w) c = 0"
proof -
  assume a: "in_bounds (np_zeros h w) c"
  have "offset (np_zeros h w) c < length (data (np_zeros h w))"
    by (rule offset_less[OF a]) (simp add: np_zeros_def np_size_def)
  then show ?thesis by (simp add: cell_offset np_zeros_def)
qed

lemma not_decided_zeros:
  "temp_world_state p = np_zeros h w \<Longrightarrow> \<not> decided_around p n"
  by (auto simp add: decided_around_def list_ex_iff sub_indices_to_check_def Let_def cell_zeros)

text \<open>
  The first placement of a run on an empty 1x2 grid: the centre cell \<open>(0, 1)\<close>
  is the frontier, tile 7 is placed and taken back.
\<close>

lemma apply_then_revert_first_placement:
  "(case apply_action (open_nodes_on_depth_zero (demo_problem (np_zeros 1 2))) (Some ((0, 1), 7)) of
      Inl e \<Rightarrow> False
    | Inr p' \<Rightarrow> revert_action p' (Some ((0, 1), 7))
         = Inr (open_nodes_on_depth_zero (demo_problem (np_zeros 1 2))))"
proof -
  let ?p = "open_nodes_on_depth_zero (demo_problem (np_zeros 1 2))"
  have h1: "length (data (temp_world_state ?p)) = np_size (temp_world_state ?p)"
    by (simp only: sel) (simp add: np_zeros_def np_size_def)
  have h2: "in_bounds (temp_world_state ?p) (0, 1)"
    by (simp only: sel) (simp add: np_zeros_def in_bounds_def)
  have h3: "cell (temp_world_state ?p) (0, 1) = 0"
    using h2 by (simp only: sel cell_zeros)
  have h4: "(0, 1) \<in> temp_world_open_super_tiles ?p"
    by (simp only: sel) simp
  have h5: "tile_counts ?p 7 = Some 0"
    by (simp only: sel)
  have h6: "\<forall>n \<in> set (indices_to_check (use_8cardinals ?p) (temp_world_state ?p) (0, 1)).
        (n \<in> temp_world_open_super_tiles ?p \<longrightarrow> decided_around ?p n) \<and>
        (cell (temp_world_state ?p) n = 0 \<and> decided_around ?p n \<longrightarrow> n \<in> temp_world_open_super_tiles ?p)"
    using not_decided_zeros[OF sel(1)]
    by (simp only: sel indices_to_check_4) (auto simp add: in_bounds_def np_zeros_def)
  from apply_then_revert_exact_frontier[OF h1 h2 h3 h4 h5 h6]
  show ?thesis by auto
qed


section \<open>Theorems: occurrence counters and depth\<close>

lemma sum_map_upd:
  fixes m :: "'k \<rightharpoonup> int"
  assumes "finite (dom m)" and "m k = Some n"
  shows "(\<Sum>x \<in> dom (m(k \<mapsto> v)). the ((m(k \<mapsto> v)) x)) = (\<Sum>x \<in> dom m. the (m x)) - n + v"
proof -
  from assms(2) have kd: "k \<in> dom m" by auto
  then have d: "dom (m(k \<mapsto> v)) = dom m" by auto
  have "(\<Sum>x \<in> dom m. the ((m(k \<mapsto> v)) x)) = v + (\<Sum>x \<in> dom m - {k}. the ((m(k \<mapsto> v)) x))"
    using sum.remove[OF assms(1) kd, of "\<lambda>x. the ((m(k \<mapsto> v)) x)"] by simp
  also have "(\<Sum>x \<in> dom m - {k}. the ((m(k \<mapsto> v)) x)) = (\<Sum>x \<in> dom m - {k}. the (m x))"
    by (rule sum.cong) auto
  also have "(\<Sum>x \<in> dom m. the (m x)) = n + (\<Sum>x \<in> dom m - {k}. the (m x))"
    using sum.remove[OF assms(1) kd, of "\<lambda>x. the (m x)"] assms(2) by simp
  then have "(\<Sum>x \<in> dom m - {k}. the (m x)) = (\<Sum>x \<in> dom m. the (m x)) - n" by simp
  finally show ?thesis unfolding d by simp
qed

lemma update_open_nodes_counts:
  "update_open_nodes p c b = Inr p' \<Longrightarrow> tile_counts p' = tile_counts p"
  by (auto simp add: update_open_nodes_def Let_def split: if_splits)

lemma revert_action_total:
  assumes "revert_action p a = Inr p'" and "finite (dom (tile_counts p))"
  shows "count_total p' = count_total p - 1 \<and> finite (dom (tile_counts p'))"
proof -
  from assms(1) obtain pos st i n where a: "a = Some (pos, st)"
    and i: "np_offset (temp_world_state p) pos = Inr i"
    and n: "tile_counts p (data (temp_world_state p) ! i) = Some n"
    and u: "update_open_nodes
              (p\<lparr>tile_counts := (tile_counts p)(data (temp_world_state p) ! i \<mapsto> n - 1),
                 temp_world_state :=
                   (temp_world_state p)\<lparr>data := (data (temp_world_state p))[i := 0]\<rparr>\<rparr>)
              pos True = Inr p'"
    by (auto simp add: revert_action_def Let_def split: option.splits sum.splits prod.splits)
  from update_open_nodes_counts[OF u]
  have tc: "tile_counts p' = (tile_counts p)(data (temp_world_state p) ! i \<mapsto> n - 1)" by simp
  have "dom (tile_counts p') = dom (tile_counts p)"
    using n by (auto simp add: tc)
  moreover have "count_total p' = count_total p - n + (n - 1)"
    unfolding count_total_def tc by (rule sum_map_upd[OF assms(2) n])
  ultimately show ?thesis using assms(2) by simp
qed

lemma apply_action_total:
  assumes "apply_action p a = Inr p'" and "finite (dom (tile_counts p))"
  shows "count_total p' = count_total p + 1 \<and> finite (dom (tile_counts p'))"
proof -
  from assms(1) obtain pos st i n where a: "a = Some (pos, st)"
    and i: "np_offset (temp_world_state p) pos = Inr i"
    and n: "tile_counts p st = Some n"
    and u: "update_open_nodes
              (p\<lparr>temp_world_state :=
                   (temp_world_state p)\<lparr>data := (data (temp_world_state p))[i := st]\<rparr>,
                 tile_counts := (tile_counts p)(st \<mapsto> n + 1)\<rparr>)
              pos False = Inr p'"
    by (auto simp add: apply_action_def Let_def split: option.splits sum.splits prod.splits)
  from update_open_nodes_counts[OF u]
  have tc: "tile_counts p' = (tile_counts p)(st \<mapsto> n + 1)" by simp
  have "dom (tile_counts p') = dom (tile_counts p)"
    using n by (auto simp add: tc)
  moreover have "count_total p' = count_total p - n + (n + 1)"
    unfolding count_total_def tc by (rule sum_map_upd[OF assms(2) n])
  ultimately show ?thesis using assms(2) by simp
qed


lemma depth_parent_None: "parent n = None \<Longrightarrow> depth n = 0"
  by (cases n) auto

lemma depth_parent_Some: "parent n = Some q \<Longrightarrow> depth n = Suc (depth q)"
  by (cases n) auto

lemma rooted_parent_Some: "parent n = Some q \<Longrightarrow> rooted q = rooted n"
  by (cases n) auto

lemma rooted_root: "rooted n \<Longrightarrow> depth n = 0 \<Longrightarrow> action n = None"
  by (cases n; cases "parent n") auto

lemma revert_action_None: "revert_action p None = Inl TypeError"
  by (simp add: revert_action_def)

lemma revert_up_total:
  assumes "revert_up p (Some n) k = Inr (p', n')" and "finite (dom (tile_counts p))"
    and "k \<le> depth n"
  shows "count_total p' = count_total p - int k \<and> finite (dom (tile_counts p'))
       \<and> (\<exists>a. n' = Some a \<and> depth a = depth n - k \<and> rooted a = rooted n)"
  using assms
proof (induction k arbitrary: p n)
  case 0
  then show ?case by auto
next
  case (Suc k)
  from Suc.prems(1) obtain p1 where r: "revert_action p (action n) = Inr p1"
    and rest: "revert_up p1 (parent n) k = Inr (p', n')"
    by (auto split: sum.splits)
  from Suc.prems(3) obtain q where q: "parent n = Some q"
    using depth_parent_None[of n] by (cases "parent n") auto
  from revert_action_total[OF r Suc.prems(2)]
  have t1: "count_total p1 = count_total p - 1" and f1: "finite (dom (tile_counts p1))" by simp_all
  have kq: "k \<le> depth q" using Suc.prems(3) depth_parent_Some[OF q] by simp
  from Suc.IH[OF rest[unfolded q] f1 kq] t1 depth_parent_Some[OF q] rooted_parent_Some[OF q]
  show ?case by auto
qed

lemma find_common_total:
  assumes "find_common p (Some a) cn j = Inr (p', cd)" and "finite (dom (tile_counts p))"
    and "j = Suc (depth a)" and "rooted a"
  shows "cd \<le> depth a \<and> count_total p' = count_total p - (int (depth a) - int cd)
       \<and> finite (dom (tile_counts p'))"
  using assms
proof (induction j arbitrary: p a cn)
  case 0
  then show ?case by simp
next
  case (Suc i)
  from Suc.prems(3) have da: "depth a = i" by simp
  from Suc.prems(1) obtain b where b: "cn = Some b"
    by (cases cn) auto
  show ?case
  proof (cases "state a = state b")
    case True
    with Suc.prems(1,2) b da show ?thesis by simp
  next
    case False
    with Suc.prems(1) b obtain p1 where r: "revert_action p (action a) = Inr p1"
      and rest: "find_common p1 (parent a) (parent b) i = Inr (p', cd)"
      by (auto split: sum.splits)
    from revert_action_total[OF r Suc.prems(2)]
    have t1: "count_total p1 = count_total p - 1" and f1: "finite (dom (tile_counts p1))" by simp_all
    have "i \<noteq> 0"
    proof
      assume "i = 0"
      with da Suc.prems(4) have "action a = None" by (simp add: rooted_root)
      with r show False by (simp add: revert_action_None)
    qed
    then obtain q where q: "parent a = Some q"
      using da depth_parent_None[of a] by (cases "parent a") auto
    have dq: "i = Suc (depth q)" using da depth_parent_Some[OF q] by simp
    have rq: "rooted q" using Suc.prems(4) rooted_parent_Some[OF q] by simp
    from Suc.IH[OF rest[unfolded q] f1 dq rq] t1 da dq
    show ?thesis by auto
  qed
qed

lemma nodes_to_apply_length: "nodes_to_apply n k = Inr ns \<Longrightarrow> length ns = k"
  by (induction k arbitrary: n ns) (auto split: option.splits sum.splits)

lemma apply_nodes_total:
  assumes "apply_nodes p ns = Inr p'" and "finite (dom (tile_counts p))"
  shows "count_total p' = count_total p + int (length ns) \<and> finite (dom (tile_counts p'))"
  using assms
proof (induction ns arbitrary: p)
  case Nil
  then show ?case by simp
next
  case (Cons nd ns)
  from Cons.prems(1) obtain p1 where a: "apply_action p (action nd) = Inr p1"
    and rest: "apply_nodes p1 ns = Inr p'"
    by (auto split: sum.splits)
  from apply_action_total[OF a Cons.prems(2)] Cons.IH[OF rest]
  show ?case by auto
qed

lemma get_world_state_total:
  assumes "get_world_state p last_nd current_nd = Inr p'"
    and "finite (dom (tile_counts p))" and "rooted last_nd"
  shows "count_total p' = count_total p - int (depth last_nd) + int (depth current_nd)
       \<and> finite (dom (tile_counts p'))"
proof -
  define sd where "sd = min (depth last_nd) (depth current_nd)"
  from assms(1) obtain p1 p_node c_node p2 cd ns where
    r1: "revert_up p (Some last_nd) (depth last_nd - sd) = Inr (p1, p_node)"
    and r2: "ascend (Some current_nd) (depth current_nd - sd) = Inr c_node"
    and r3: "find_common p1 p_node c_node (Suc sd) = Inr (p2, cd)"
    and r4: "nodes_to_apply (Some current_nd) (depth current_nd - cd) = Inr ns"
    and r5: "apply_nodes p2 (rev ns) = Inr p'"
    unfolding get_world_state_def Let_def sd_def[symmetric]
    by (auto split: sum.splits prod.splits)
  from revert_up_total[OF r1 assms(2)] obtain a where
    t1: "count_total p1 = count_total p - int (depth last_nd - sd)"
    and f1: "finite (dom (tile_counts p1))"
    and a: "p_node = Some a" "depth a = depth last_nd - (depth last_nd - sd)" "rooted a = rooted last_nd"
    by auto
  have da: "depth a = sd" using a(2) by (simp add: sd_def)
  from find_common_total[OF r3[unfolded a(1)] f1] da a(3) assms(3)
  have cd: "cd \<le> sd" and t2: "count_total p2 = count_total p1 - (int sd - int cd)"
    and f2: "finite (dom (tile_counts p2))" by simp_all
  from apply_nodes_total[OF r5 f2] nodes_to_apply_length[OF r4]
  have t3: "count_total p' = count_total p2 + int (depth current_nd - cd)"
    and f3: "finite (dom (tile_counts p'))" by simp_all
  have "sd \<le> depth last_nd" "sd \<le> depth current_nd" by (simp_all add: sd_def)
  with cd t1 t2 t3 f3 show ?thesis by simp
qed


lemma init_count_total:
  assumes "WFC_Problem_init E kw = Inr p0"
  shows "count_total p0 = 0
       \<and> (finite (dom (tile_data (kw_sample kw))) \<longrightarrow> finite (dom (tile_counts p0)))"
proof -
  from init_nonzero[OF init_Inr[OF assms], of E] assms
  have tc: "tile_counts p0 = (\<lambda>k. if k \<in> dom (tile_data (kw_sample kw)) then Some 0 else None)"
    by auto
  have d: "dom (tile_counts p0) = dom (tile_data (kw_sample kw))"
    unfolding tc by (auto split: if_splits)
  have "count_total p0 = (\<Sum>k \<in> dom (tile_data (kw_sample kw)). 0)"
    unfolding count_total_def d by (rule sum.cong) (auto simp add: tc)
  then show ?thesis using d by simp
qed

text \<open>
  C10. The sum of the occurrence counters is the depth of the materialized node. A
  freshly constructed problem has sum 0, the depth of the root, whatever cells the
  starting grid pre-fills. When the counters sum to the depth of the last materialized
  node, whose root carries no action, and materializing another node returns, the
  counters sum to the depth of that node: every revert on the way up takes one off and
  every apply on the way down adds one.
\<close>

theorem counters_sum_is_depth:
  "(WFC_Problem_init E kw = Inr p0 \<longrightarrow>
      count_total p0 = int (depth initial_node) \<and> rooted initial_node
      \<and> (finite (dom (tile_data (kw_sample kw))) \<longrightarrow> finite (dom (tile_counts p0))))
   \<and> (finite (dom (tile_counts p)) \<and> rooted last_nd \<and> count_total p = int (depth last_nd)
        \<and> get_world_state p last_nd current_nd = Inr p' \<longrightarrow>
      count_total p' = int (depth current_nd) \<and> finite (dom (tile_counts p')))"
proof (intro conjI impI)
  assume "WFC_Problem_init E kw = Inr p0"
  from init_count_total[OF this]
  show "count_total p0 = int (depth initial_node)"
    and "finite (dom (tile_data (kw_sample kw))) \<Longrightarrow> finite (dom (tile_counts p0))"
    by (simp_all add: initial_node_def)
next
  show "rooted initial_node" by (simp add: initial_node_def)
next
  assume a: "finite (dom (tile_counts p)) \<and> rooted last_nd \<and> count_total p = int (depth last_nd)
        \<and> get_world_state p last_nd current_nd = Inr p'"
  then have g: "get_world_state p last_nd current_nd = Inr p'" by simp
  from get_world_state_total[OF g] a
  show "count_total p' = int (depth current_nd)" and "finite (dom (tile_counts p'))"
    by simp_all
qed

lemma gws_to_child:
  "get_world_state p initial_node demo_child = apply_action p (Some ((0, 1), 7))"
  by (simp add: get_world_state_def initial_node_def demo_child_def split: sum.splits)

lemma gws_to_root:
  "get_world_state p demo_child initial_node = revert_action p (Some ((0, 1), 7))"
  by (simp add: get_world_state_def initial_node_def demo_child_def split: sum.splits)

text \<open>
  An empty 1x2 grid: the sum is 0 after construction, 1 after materializing the child of
  the root that places tile 7, and 0 again after materializing the root from there.
\<close>

theorem counters_sum_is_depth_witness:
  "count_total (demo_problem (np_zeros 1 2)) = 0
   \<and> (case get_world_state (open_nodes_on_depth_zero (demo_problem (np_zeros 1 2)))
             initial_node demo_child of
        Inl e \<Rightarrow> False
      | Inr p1 \<Rightarrow> count_total p1 = 1
          \<and> (case get_world_state p1 demo_child initial_node of
                Inl e \<Rightarrow> False
              | Inr p2 \<Rightarrow> count_total p2 = 0))"
proof -
  let ?g = "np_zeros 1 2"
  let ?p = "open_nodes_on_depth_zero (demo_problem ?g)"
  have t: "tiles_to_fill ?g \<noteq> 0"
    by (simp add: tiles_to_fill_def np_size_def) (simp add: np_zeros_def)
  have fin_s: "finite (dom (tile_data (kw_sample (demo_args ?g))))"
    by (simp add: demo_args_def demo_sample_def)
  from counters_sum_is_depth[THEN conjunct1, THEN mp, OF init_demo[OF t]] fin_s
  have c0: "count_total (demo_problem ?g) = 0" and f0: "finite (dom (tile_counts (demo_problem ?g)))"
    by (simp_all add: initial_node_def)
  have same: "tile_counts ?p = tile_counts (demo_problem ?g)"
    by (simp add: open_nodes_no_start)
  have cp: "count_total ?p = 0" and fp: "finite (dom (tile_counts ?p))"
    using c0 f0 by (simp_all only: count_total_def same)
  have inb: "in_bounds (temp_world_state ?p) (0, 1)"
    by (simp only: sel) (simp add: np_zeros_def in_bounds_def)
  have "(0, 1) \<in> temp_world_open_super_tiles ?p"
    by (simp only: sel) simp
  from apply_action_eq[OF inb sel(4) this] obtain p1 where
    a1: "apply_action ?p (Some ((0, 1), 7)) = Inr p1"
    and s1: "temp_world_state p1 = (temp_world_state ?p)\<lparr>data := (data (temp_world_state ?p))[offset (temp_world_state ?p) (0, 1) := 7]\<rparr>"
    and k1: "tile_counts p1 = (tile_counts ?p)(7 \<mapsto> 0 + 1)"
    by simp
  have g1: "get_world_state ?p initial_node demo_child = Inr p1"
    by (simp only: gws_to_child a1)
  have "count_total p1 = int (depth demo_child) \<and> finite (dom (tile_counts p1))"
    by (rule counters_sum_is_depth[THEN conjunct2, THEN mp, of ?p initial_node])
      (simp only: g1 cp fp, simp add: initial_node_def)
  then have c1: "count_total p1 = 1" and f1: "finite (dom (tile_counts p1))"
    by (simp_all add: initial_node_def demo_child_def)
  have inb1: "in_bounds (temp_world_state p1) (0, 1)"
    using inb by (simp add: s1)
  have "cell (temp_world_state p1) (0, 1) = 7"
    unfolding s1 sel by (simp add: cell_offset offset_def np_zeros_def)
  then have "tile_counts p1 (cell (temp_world_state p1) (0, 1)) = Some 1"
    by (simp add: k1)
  from revert_action_eq[OF inb1 this, of 7] obtain p2 where
    a2: "revert_action p1 (Some ((0, 1), 7)) = Inr p2"
    by simp
  have g2: "get_world_state p1 demo_child initial_node = Inr p2"
    by (simp only: gws_to_root a2)
  have "count_total p2 = int (depth initial_node) \<and> finite (dom (tile_counts p2))"
    by (rule counters_sum_is_depth[THEN conjunct2, THEN mp, of p1 demo_child])
      (simp only: g2 c1 f1, simp add: initial_node_def demo_child_def)
  then have c2: "count_total p2 = 0"
    by (simp add: initial_node_def)
  show ?thesis
    by (simp only: g1 g2 c0 c1 c2 sum.case)
qed

section \<open>Theorems: successor enumeration\<close>

lemma demo_env_sel [simp]:
  "rng_random demo_env g n = (replicate n (1 / 2), Suc g)"
  "rng_integers demo_env g low high = ((low + high) div 2, Suc g)"
  "world_hash demo_env a = sum_list (data a)"
  "set_order demo_env F = filter (\<lambda>c. c \<in> F) [(y, x). y \<leftarrow> [0, 1, 2, 3], x \<leftarrow> [0, 1, 2, 3]]"
  by (simp_all add: demo_env_def)

lemma potential_states_demo:
  "potential_states demo_sample [0, p2, 0, p4, 0, p6, 0, p8, 0] =
     (if (p2 = 0 \<or> p2 = 7) \<and> (p4 = 0 \<or> p4 = 7) \<and> (p6 = 0 \<or> p6 = 7) \<and> (p8 = 0 \<or> p8 = 7)
      then Inr ([7], [1]) else Inr ([], []))"
  by (simp add: potential_states_def demo_sample_def is_possible_def map_to_probabilities_def
      numeral_eq_Suc upt_rec)


lemma set_cell_in_bounds:
  "in_bounds (temp_world_state p) c \<Longrightarrow>
   set_cell p c v = Inr (p\<lparr>temp_world_state := placed (temp_world_state p) c v\<rparr>)"
  by (simp add: set_cell_def np_offset_in_bounds placed_def)

lemma placed_back:
  assumes "cell a c = 0"
  shows "placed (placed a c t) c 0 = a"
proof -
  have "(data a)[offset a c := 0] = data a"
    using assms list_update_id[of "data a" "offset a c"] by (simp add: cell_offset)
  then show ?thesis by (simp add: placed_def)
qed

lemma yield_items_eq:
  assumes "in_bounds (temp_world_state p) c" and "cell (temp_world_state p) c = 0"
  shows "yield_items E p nd d cum c en items =
     Inr (map (\<lambda>(t, cost). Node (d + 1, world_hash E (placed (temp_world_state p) c t)) (Some nd)
                              (Some (c, t)) cost (cum + en)) items, p)"
proof (induction items)
  case Nil
  then show ?case by simp
next
  case (Cons it items)
  obtain t cost where it: "it = (t, cost)" by (cases it)
  let ?p1 = "p\<lparr>temp_world_state := placed (temp_world_state p) c t\<rparr>"
  have s1: "set_cell p c t = Inr ?p1"
    by (rule set_cell_in_bounds[OF assms(1)])
  have "in_bounds (temp_world_state ?p1) c"
    using assms(1) by (simp add: placed_def)
  from set_cell_in_bounds[OF this, of 0]
  have s2: "set_cell ?p1 c 0 = Inr p"
    by (simp add: placed_back[OF assms(2)])
  show ?case
    by (simp add: it s1 s2 Cons.IH)
qed

lemma yield_cells_total:
  assumes "\<forall>e \<in> set cps. in_bounds (temp_world_state p) (fst e)
              \<and> cell (temp_world_state p) (fst e) = 0
              \<and> fst (snd (snd e)) \<noteq> None \<and> snd (snd (snd e)) \<noteq> None"
  shows "\<exists>children. yield_cells E p nd d cum cps = Inr (children, p)
     \<and> (\<forall>ch \<in> set children. \<exists>c t. c \<in> fst ` set cps \<and> action ch = Some (c, t)
            \<and> parent ch = Some nd
            \<and> state ch = (d + 1, world_hash E (placed (temp_world_state p) c t)))"
  using assms
proof (induction cps)
  case Nil
  then show ?case by simp
next
  case (Cons e cps)
  obtain c potential costs entropy where e: "e = (c, potential, costs, entropy)"
    by (cases e) auto
  from Cons.prems e obtain cs en where ce: "costs = Some cs" "entropy = Some en"
    and inb: "in_bounds (temp_world_state p) c" and z: "cell (temp_world_state p) c = 0"
    by auto
  from Cons.IH Cons.prems obtain more where
    m: "yield_cells E p nd d cum cps = Inr (more, p)"
    and mp: "\<forall>ch \<in> set more. \<exists>c t. c \<in> fst ` set cps \<and> action ch = Some (c, t)
            \<and> parent ch = Some nd
            \<and> state ch = (d + 1, world_hash E (placed (temp_world_state p) c t))"
    by auto
  let ?here = "map (\<lambda>(t, cost). Node (d + 1, world_hash E (placed (temp_world_state p) c t)) (Some nd)
                              (Some (c, t)) cost (cum + en)) (zip potential cs)"
  have run: "yield_cells E p nd d cum (e # cps) = Inr (?here @ more, p)"
    by (simp add: e ce yield_items_eq[OF inb z] m)
  have "\<forall>ch \<in> set (?here @ more). \<exists>c' t. c' \<in> fst ` set (e # cps) \<and> action ch = Some (c', t)
            \<and> parent ch = Some nd
            \<and> state ch = (d + 1, world_hash E (placed (temp_world_state p) c' t))"
  proof
    fix ch assume "ch \<in> set (?here @ more)"
    then have "ch \<in> set ?here \<or> ch \<in> set more" by (simp only: set_append Un_iff)
    then show "\<exists>c' t. c' \<in> fst ` set (e # cps) \<and> action ch = Some (c', t)
            \<and> parent ch = Some nd
            \<and> state ch = (d + 1, world_hash E (placed (temp_world_state p) c' t))"
    proof (elim disjE)
      assume "ch \<in> set ?here"
      then obtain t cost where "ch = Node (d + 1, world_hash E (placed (temp_world_state p) c t)) (Some nd)
                              (Some (c, t)) cost (cum + en)"
        by (auto simp only: set_map image_iff split: prod.splits)
      then show ?thesis
        by (intro exI[of _ c] exI[of _ t]) (simp add: e)
    next
      assume "ch \<in> set more"
      with mp show ?thesis by fastforce
    qed
  qed
  with run show ?case by blast
qed

lemma candidate_costs_keeps_world:
  assumes "candidate_costs E p d ts ps = Inr (r, p')"
  shows "\<exists>g. p' = p\<lparr>rng := g\<rparr>"
  using assms unfolding candidate_costs_def Let_def
  by (auto split: sum.splits prod.splits if_splits)

lemma cost_keeps_world:
  assumes "get_cell_potential_states_and_costs E p c d = Inr (r, p')"
  shows "\<exists>g. p' = p\<lparr>rng := g\<rparr>"
proof -
  from assms have "p' = p \<or> (\<exists>ts ps. candidate_costs E p d ts ps = Inr (r, p'))"
    unfolding get_cell_potential_states_and_costs_def
    by (auto split: sum.splits prod.splits if_splits)
  moreover have "p = p\<lparr>rng := rng p\<rparr>" by simp
  ultimately show ?thesis using candidate_costs_keeps_world by metis
qed

lemma potential_collapses_keeps_world:
  assumes "potential_collapses E p cs d = Inr (rs, p')"
  shows "(\<exists>g. p' = p\<lparr>rng := g\<rparr>) \<and> length rs = length cs"
  using assms
proof (induction cs arbitrary: p rs)
  case Nil
  then have "p' = p\<lparr>rng := rng p\<rparr>" and "rs = []" by simp_all
  then show ?case by (intro conjI exI[of _ "rng p"]) simp_all
next
  case (Cons c cs)
  from Cons.prems obtain r p1 rs' where
    a: "get_cell_potential_states_and_costs E p c d = Inr (r, p1)"
    and b: "potential_collapses E p1 cs d = Inr (rs', p')" and rs: "rs = r # rs'"
    by (auto split: sum.splits prod.splits)
  from cost_keeps_world[OF a] obtain g1 where p1: "p1 = p\<lparr>rng := g1\<rparr>" by blast
  from Cons.IH[OF b] obtain g2 where p': "p' = p1\<lparr>rng := g2\<rparr>" and l: "length rs' = length cs"
    by blast
  have "p' = p\<lparr>rng := g2\<rparr>"
    unfolding p' p1 by simp
  with l rs show ?case by auto
qed


lemma yield_cells_Inr_shape:
  assumes "yield_cells E p nd d cum cps = Inr (children, p')"
  shows "\<forall>e \<in> set cps. fst (snd (snd e)) \<noteq> None \<and> snd (snd (snd e)) \<noteq> None"
  using assms
proof (induction cps arbitrary: p children)
  case Nil
  then show ?case by simp
next
  case (Cons e cps)
  obtain c potential costs entropy where e: "e = (c, potential, costs, entropy)"
    by (cases e) auto
  from Cons.prems e obtain cs en ch1 p1 ch2 where "costs = Some cs" "entropy = Some en"
    and "yield_cells E p1 nd d cum cps = Inr (ch2, p')"
    by (auto split: option.splits sum.splits prod.splits)
  with Cons.IH e show ?case by auto
qed

text \<open>
  C9. Let every frontier cell be inside the grid and undecided, as the frontier keeps
  them. When the enumeration of the children of a node returns, it has changed nothing
  of the problem but the state of the random generator: the grid, the counters and the
  frontier are the materialized ones. Every child places one tile \<open>t\<close> at one
  frontier cell \<open>c\<close>, has the expanded node as parent, and its state is the
  depth plus one with the hash of the materialized grid in which \<open>c\<close> holds
  \<open>t\<close>. Lemma \<open>yield_cells_total\<close> shows that the two yielding loops
  return, with the problem they started from, whenever the cells are in bounds and
  undecided and every cell has costs.
\<close>

theorem children_hash_and_grid_restored:
  assumes "\<forall>c \<in> set (set_order E (temp_world_open_super_tiles p)).
             in_bounds (temp_world_state p) c \<and> cell (temp_world_state p) c = 0"
    and "expand_node E p nd cum = Inr (children, p')"
  shows "(\<exists>g. p' = p\<lparr>rng := g\<rparr>)
     \<and> (\<forall>ch \<in> set children. \<exists>c t. c \<in> set (set_order E (temp_world_open_super_tiles p))
            \<and> action ch = Some (c, t) \<and> parent ch = Some nd
            \<and> state ch = (depth nd + 1, world_hash E (placed (temp_world_state p) c t)))"
proof -
  let ?iyxs = "set_order E (temp_world_open_super_tiles p)"
  from assms(2) obtain pcs p1 where
    pc: "potential_collapses E p ?iyxs (depth nd) = Inr (pcs, p1)"
    and rest: "(children = [] \<and> p' = p1)
         \<or> yield_cells E p1 nd (depth nd) cum (zip ?iyxs pcs) = Inr (children, p')"
    unfolding expand_node_def Let_def
    by (auto split: sum.splits prod.splits if_splits)
  from potential_collapses_keeps_world[OF pc] obtain g where p1: "p1 = p\<lparr>rng := g\<rparr>"
    and len: "length pcs = length ?iyxs" by blast
  from rest show ?thesis
  proof
    assume "children = [] \<and> p' = p1"
    with p1 show ?thesis by auto
  next
    assume y: "yield_cells E p1 nd (depth nd) cum (zip ?iyxs pcs) = Inr (children, p')"
    have cells: "\<forall>e \<in> set (zip ?iyxs pcs). in_bounds (temp_world_state p1) (fst e)
              \<and> cell (temp_world_state p1) (fst e) = 0
              \<and> fst (snd (snd e)) \<noteq> None \<and> snd (snd (snd e)) \<noteq> None"
    proof
      fix e assume e: "e \<in> set (zip ?iyxs pcs)"
      have "fst e \<in> set ?iyxs"
        using e set_zip_leftD[of "fst e" "snd e" ?iyxs pcs] by simp
      with assms(1) have "in_bounds (temp_world_state p1) (fst e)"
        and "cell (temp_world_state p1) (fst e) = 0" by (simp_all add: p1)
      with yield_cells_Inr_shape[OF y] e
      show "in_bounds (temp_world_state p1) (fst e)
              \<and> cell (temp_world_state p1) (fst e) = 0
              \<and> fst (snd (snd e)) \<noteq> None \<and> snd (snd (snd e)) \<noteq> None" by simp
    qed
    from yield_cells_total[OF cells, of E nd "depth nd" cum] y
    have p': "p' = p1"
      and ch: "\<forall>ch \<in> set children. \<exists>c t. c \<in> fst ` set (zip ?iyxs pcs) \<and> action ch = Some (c, t)
            \<and> parent ch = Some nd
            \<and> state ch = (depth nd + 1, world_hash E (placed (temp_world_state p1) c t))"
      by auto
    have sub: "fst ` set (zip ?iyxs pcs) \<subseteq> set ?iyxs"
      by (auto dest: set_zip_leftD)
    have tws: "temp_world_state p1 = temp_world_state p" by (simp add: p1)
    have "\<forall>ch \<in> set children. \<exists>c t. c \<in> set ?iyxs \<and> action ch = Some (c, t)
            \<and> parent ch = Some nd
            \<and> state ch = (depth nd + 1, world_hash E (placed (temp_world_state p) c t))"
    proof
      fix x assume "x \<in> set children"
      with ch obtain c t where "c \<in> fst ` set (zip ?iyxs pcs)" "action x = Some (c, t)"
        "parent x = Some nd"
        "state x = (depth nd + 1, world_hash E (placed (temp_world_state p1) c t))"
        by blast
      with sub tws show "\<exists>c t. c \<in> set ?iyxs \<and> action x = Some (c, t)
            \<and> parent x = Some nd
            \<and> state x = (depth nd + 1, world_hash E (placed (temp_world_state p) c t))"
        by (intro exI[of _ c] exI[of _ t]) auto
    qed
    with p' p1 show ?thesis by auto
  qed
qed

lemma adjacent_zeros: "adjacent_states (np_zeros h w) c = replicate 8 0"
  by (simp add: adjacent_states_def cell_zeros numeral_eq_Suc)

lemma demo_problem_sel2 [simp]:
  "sample (demo_problem g) = demo_sample"
  "rng (demo_problem g) = 0"
  "min_temperature (demo_problem g) = 50"
  "max_freq_adjust (demo_problem g) = 1"
  "number_of_tiles_to_process (demo_problem g) = tiles_to_fill g"
  "tile_freq_adjustment_poly (demo_problem g) = [4 / real_of_int (tiles_to_fill g), - 4, real_of_int (tiles_to_fill g)]"
  by (simp_all add: demo_problem_def)

lemma candidates_zeros:
  assumes "temp_world_state p = np_zeros h w" and "use_8cardinals p = False"
    and "sample p = demo_sample"
  shows "cell_candidates p c = Inr ([7], [1])"
  using assms
  by (simp add: cell_candidates_def adjacent_zeros get_cell_potential_states_4cardinals_def
      potential_states_demo numeral_eq_Suc)


lemma adjusted_length:
  "length sf = length cf \<Longrightarrow> length (adjusted_freqs_diff p d sf cf) = length sf"
  by (simp add: adjusted_freqs_diff_def Let_def)

lemma candidate_costs_single_demo:
  assumes "tile_data (sample p) t = Some td" and "tile_counts p t = Some k"
    and "py_int (min_temperature p) < 100"
  shows "candidate_costs demo_env p d [t] [q] =
     Inr (([t], Some [0], Some 0), p\<lparr>rng := Suc (Suc (rng p))\<rparr>)"
proof -
  obtain a where a: "adjusted_freqs_diff p d [snd td] [real_of_int k / real (max 1 d)] = [a]"
    using adjusted_length[of "[snd td]" "[real_of_int k / real (max 1 d)]" p d]
    by (cases "adjusted_freqs_diff p d [snd td] [real_of_int k / real (max 1 d)]") auto
  show ?thesis
    using assms a by (simp add: candidate_costs_def Let_def)
qed

lemma py_int_50: "py_int 50 = 50"
  by (simp add: py_int_def)

lemma demo_start_fields:
  defines "p \<equiv> open_nodes_on_depth_zero (demo_problem (np_zeros 1 2))"
  shows "temp_world_state p = np_zeros 1 2" and "use_8cardinals p = False"
    and "temp_world_open_super_tiles p = {(0, 1)}" and "tile_counts p 7 = Some 0"
    and "sample p = demo_sample" and "rng p = 0" and "min_temperature p = 50"
    and "in_bounds (temp_world_state p) (0, 1)" and "cell (temp_world_state p) (0, 1) = 0"
proof -
  show a: "temp_world_state p = np_zeros 1 2" and "use_8cardinals p = False"
    and "temp_world_open_super_tiles p = {(0, 1)}" and "tile_counts p 7 = Some 0"
    unfolding p_def by (rule sel)+
  show "sample p = demo_sample" and "rng p = 0" and "min_temperature p = 50"
    unfolding p_def by (simp_all add: open_nodes_no_start)
  show b: "in_bounds (temp_world_state p) (0, 1)"
    unfolding a by (simp add: np_zeros_def in_bounds_def)
  show "cell (temp_world_state p) (0, 1) = 0"
    using b unfolding a by (rule cell_zeros)
qed

text \<open>
  The root of a run on an empty 1x2 grid: one frontier cell, one candidate, one child,
  whose hash 7 is the hash of the grid \<open>[0, 7]\<close>; the grid stays
  \<open>[0, 0]\<close>.
\<close>

theorem children_hash_and_grid_restored_witness:
  "expand_node demo_env (open_nodes_on_depth_zero (demo_problem (np_zeros 1 2))) initial_node 0
     = Inr ([demo_child], (open_nodes_on_depth_zero (demo_problem (np_zeros 1 2)))\<lparr>rng := 2\<rparr>)"
proof -
  define p where "p = open_nodes_on_depth_zero (demo_problem (np_zeros 1 2))"
  note f = demo_start_fields[folded p_def]
  have ord: "set_order demo_env (temp_world_open_super_tiles p) = [(0, 1)]"
    unfolding f by simp
  have cand: "cell_candidates p (0, 1) = Inr ([7], [1])"
    by (rule candidates_zeros[OF f(1) f(2) f(5)])
  have cost: "candidate_costs demo_env p 0 [7] [1]
      = Inr (([7], Some [0], Some 0), p\<lparr>rng := Suc (Suc (rng p))\<rparr>)"
    by (rule candidate_costs_single_demo[where td = "([7], 1)" and k = 0])
      (simp_all add: f demo_sample_def py_int_50)
  have pc: "potential_collapses demo_env p [(0, 1)] (depth initial_node)
      = Inr ([([7], Some [0], Some 0)], p\<lparr>rng := 2\<rparr>)"
    by (simp add: get_cell_potential_states_and_costs_def cand cost f initial_node_def)
  have run: "expand_node demo_env p initial_node 0
      = yield_cells demo_env (p\<lparr>rng := 2\<rparr>) initial_node (depth initial_node) 0
          [((0, 1), [7], Some [0], Some 0)]"
    unfolding expand_node_def Let_def ord pc by simp
  have hyp: "\<forall>c \<in> set (set_order demo_env (temp_world_open_super_tiles p)).
             in_bounds (temp_world_state p) c \<and> cell (temp_world_state p) c = 0"
    unfolding ord using f(8,9) by simp
  have h: "world_hash demo_env (placed (np_zeros 1 2) (0, 1) 7) = 7"
    by (simp add: placed_def offset_def np_zeros_def numeral_eq_Suc)
  have a1: "in_bounds (temp_world_state (p\<lparr>rng := 2\<rparr>)) (0, 1)"
    and a2: "cell (temp_world_state (p\<lparr>rng := 2\<rparr>)) (0, 1) = 0"
    and a3: "temp_world_state (p\<lparr>rng := 2\<rparr>) = np_zeros 1 2"
    using f(1,8,9) by simp_all
  have yi: "yield_items demo_env (p\<lparr>rng := 2\<rparr>) initial_node (depth initial_node) 0 (0, 1) 0 [(7, 0)]
      = Inr ([demo_child], p\<lparr>rng := 2\<rparr>)"
    unfolding yield_items_eq[OF a1 a2] a3
    using h by (simp add: demo_child_def initial_node_def)
  have "yield_cells demo_env (p\<lparr>rng := 2\<rparr>) initial_node (depth initial_node) 0
          [((0, 1), [7], Some [0], Some 0)] = Inr ([demo_child], p\<lparr>rng := 2\<rparr>)"
    by (simp add: yi del: yield_items.simps)
  with run have r: "expand_node demo_env p initial_node 0 = Inr ([demo_child], p\<lparr>rng := 2\<rparr>)"
    by simp
  from children_hash_and_grid_restored[OF hyp r] r
  show ?thesis unfolding p_def by simp
qed

section \<open>Theorems: cancellation\<close>

lemma successors_cancelled: "stop_proxy p = Some True \<Longrightarrow> successors E p nd = Inl InterruptedError"
  by (simp add: successors_def)

lemma init_fields:
  assumes "WFC_Problem_init E kw = Inr p"
  shows "stop_proxy p = kw_stop_proxy kw" and "best_node p = None" and "stop p = False"
    and "temp_world_state p = kw_starting_state kw" and "temp_world_open_super_tiles p = {}"
  using init_record[OF init_Inr[OF assms], of E] assms by auto

text \<open>
  C7 (amended). When the cancellation flag is set at construction, the expansion of any
  node raises \<open>InterruptedError\<close> at once, so nothing is assigned and no best
  node is recorded; the search hands the exception on, and \<open>generate_single\<close>
  returns \<open>None\<close> in place of a grid, which no completed run returns. The solution
  state of that problem cannot be extracted: with no best node \<open>get_solution_state\<close>
  raises.
\<close>

theorem cancelled_before_first_expansion:
  assumes "WFC_Problem_init E kw = Inr p" and "kw_stop_proxy kw = Some True"
  shows "successors E p nd = Inl InterruptedError
       \<and> best_first_search E (Suc n) p = Some (Inl InterruptedError, p)
       \<and> generate_single E (Suc n) kw = Some (Inr None)
       \<and> get_solution_state p = Inl AttributeError"
proof -
  note f = init_fields[OF assms(1)]
  have c: "\<And>nd. successors E p nd = Inl InterruptedError"
    using f(1) assms(2) by (simp add: successors_cancelled)
  have b: "best_first_search E (Suc n) p = Some (Inl InterruptedError, p)"
    by (simp add: best_first_search_def goal_test_def f c)
  have g: "generate_single E (Suc n) kw = Some (Inr None)"
    by (simp add: generate_single_def assms(1) b)
  have s: "get_solution_state p = Inl AttributeError"
    by (simp add: get_solution_state_def f)
  from c b g s show ?thesis by simp
qed

lemma cancelled_init:
  "WFC_Problem_init demo_env cancelled_args = Inr ((demo_problem (np_zeros 2 2))\<lparr>stop_proxy := Some True\<rparr>)"
proof -
  have t: "tiles_to_fill (kw_starting_state cancelled_args) \<noteq> 0"
    by (simp add: cancelled_args_def demo_args_def tiles_to_fill_def np_size_def)
      (simp add: np_zeros_def)
  show ?thesis
    unfolding init_record[OF t]
    by (simp add: cancelled_args_def demo_args_def demo_env_def demo_problem_def)
qed

text \<open>
  A default run on an empty 2x2 grid with the flag set.
\<close>

theorem cancelled_before_first_expansion_witness:
  "generate_single demo_env (Suc 0) cancelled_args = Some (Inr None)
   \<and> get_solution_state ((demo_problem (np_zeros 2 2))\<lparr>stop_proxy := Some True\<rparr>) = Inl AttributeError"
  using cancelled_before_first_expansion[OF cancelled_init, of initial_node 0]
  by (simp add: cancelled_args_def)

text \<open>
  C7 as stated fails. With the flag set before the first expansion, the run on the empty
  2x2 grid returns \<open>None\<close>, not the all-undecided grid, and the solution state of
  the problem is an exception, not the all-undecided grid.
\<close>

theorem cancelled_run_counterexample:
  "generate_single demo_env (Suc 0) cancelled_args \<noteq> Some (Inr (Some (np_zeros 2 2)))
   \<and> (case WFC_Problem_init demo_env cancelled_args of
        Inl e \<Rightarrow> False
      | Inr p \<Rightarrow> successors demo_env p initial_node = Inl InterruptedError
          \<and> get_solution_state p \<noteq> Inr (np_zeros 2 2))"
proof -
  have b: "best_first_search demo_env (Suc 0) ((demo_problem (np_zeros 2 2))\<lparr>stop_proxy := Some True\<rparr>)
      = Some (Inl InterruptedError, (demo_problem (np_zeros 2 2))\<lparr>stop_proxy := Some True\<rparr>)"
    by (simp add: best_first_search_def goal_test_def successors_cancelled demo_problem_def)
  have g: "generate_single demo_env (Suc 0) cancelled_args = Some (Inr None)"
    by (simp add: generate_single_def cancelled_init b)
  have s: "get_solution_state ((demo_problem (np_zeros 2 2))\<lparr>stop_proxy := Some True\<rparr>) = Inl AttributeError"
    by (simp add: get_solution_state_def demo_problem_def)
  show ?thesis
    by (simp add: g cancelled_init s successors_cancelled)
qed

section \<open>Theorems: a run with a starting grid\<close>

text \<open>
  The run on the starting grid \<open>[[0, 5, 5], [0, 0, 0]]\<close> in 4-cardinal mode, step
  by step: the sample built from the image, the constructor, the expansion of the root and
  the expansion of its only child.
\<close>

lemma bug_sample_built: "WFC_Sample_init first_byte [bug_img] = Inr bug_sample"
  by (simp add: WFC_Sample_init_def prepare_def bug_img_def bug_sample_def np_unique_def
      dict_zip_def window3_def first_byte_def numeral_eq_Suc fun_upd_twist)

lemma get_world_state_same: "get_world_state p n n = Inr p"
  by (simp add: get_world_state_def)

lemma bug_tiles_to_fill: "tiles_to_fill bug_grid = 4"
  by (simp add: tiles_to_fill_def bug_grid_def np_size_def count_nonzero_def)

lemma bug_init: "WFC_Problem_init demo_env bug_args = Inr bug_problem"
proof -
  have t: "tiles_to_fill (kw_starting_state bug_args) \<noteq> 0"
    by (simp add: bug_args_def demo_args_def bug_tiles_to_fill)
  show ?thesis
    unfolding init_record[OF t]
    by (simp add: bug_args_def demo_args_def demo_env_def demo_problem_def bug_problem_def)
qed

lemma bug_problem_sel [simp]:
  "temp_world_state bug_problem = bug_grid"
  "use_8cardinals bug_problem = False"
  "temp_world_open_super_tiles bug_problem = {}"
  "tile_counts bug_problem = (\<lambda>k. if k = 5 \<or> k = 7 then Some 0 else None)"
  "starting_state bug_problem = Some bug_grid"
  "world_tdims bug_problem = (2, 3)"
  "sample bug_problem = bug_sample"
  "rng bug_problem = 0"
  "min_temperature bug_problem = 50"
  "min_min_temperature bug_problem = 0"
  "max_min_temperature bug_problem = 80"
  "max_freq_adjust bug_problem = 1"
  "number_of_tiles_to_process bug_problem = 4"
  "stop_proxy bug_problem = None"
  "ticker_proxy bug_problem = None"
  "best_node bug_problem = None"
  "last_node bug_problem = None"
  "plateau_check_ticker bug_problem = 0"
  "plateau_stop_steps bug_problem = 3"
  "prev_best_depth bug_problem = 0"
  "stop bug_problem = False"
  by (auto simp add: bug_problem_def demo_problem_def bug_sample_def bug_tiles_to_fill)
    (simp_all add: bug_grid_def count_nonzero_def)

lemma bug_cells:
  "cell bug_grid (0, 0) = 0" "cell bug_grid (0, 1) = 5" "cell bug_grid (0, 2) = 5"
  "cell bug_grid (1, 0) = 0" "cell bug_grid (1, 1) = 0" "cell bug_grid (1, 2) = 0"
  by (simp_all add: cell_def bug_grid_def)

lemma bug_in_bounds: "in_bounds bug_grid c = (0 \<le> fst c \<and> fst c < 2 \<and> 0 \<le> snd c \<and> snd c < 3)"
  by (simp add: in_bounds_def bug_grid_def)

lemma bug_enumerate: "ndenumerate bug_grid = [(0, 0), (0, 1), (0, 2), (1, 0), (1, 1), (1, 2)]"
  by (simp add: ndenumerate_def bug_grid_def numeral_eq_Suc upt_rec)

lemma bug_open:
  "open_nodes_on_depth_zero (bug_problem\<lparr>best_node := b\<rparr>)
     = bug_problem\<lparr>best_node := b, temp_world_open_super_tiles := {(0, 0)}\<rparr>"
  by (simp add: open_nodes_on_depth_zero_def bug_enumerate bug_cells bug_in_bounds Let_def nth_Cons')

lemma potential_states_bug:
  "potential_states bug_sample [0, p2, 0, p4, 0, p6, 0, p8, 0] =
     (if (p2 = 0 \<or> p2 = 7) \<and> (p4 = 0 \<or> p4 = 7) \<and> (p6 = 0 \<or> p6 = 5) \<and> (p8 = 0 \<or> p8 = 7)
      then Inr ([7], [1]) else Inr ([], []))"
  by (simp add: potential_states_def bug_sample_def is_possible_def map_to_probabilities_def
      numeral_eq_Suc upt_rec)

lemma expand_single_demo:
  assumes ord: "set_order demo_env (temp_world_open_super_tiles p) = [c]"
    and cand: "cell_candidates p c = Inr ([t], [q])"
    and td: "tile_data (sample p) t = Some td" and tc: "tile_counts p t = Some k"
    and temp: "py_int (min_temperature p) < 100"
    and inb: "in_bounds (temp_world_state p) c" and z: "cell (temp_world_state p) c = 0"
  shows "expand_node demo_env p nd cum =
     Inr ([Node (depth nd + 1, world_hash demo_env (placed (temp_world_state p) c t)) (Some nd)
             (Some (c, t)) 0 cum], p\<lparr>rng := Suc (Suc (rng p))\<rparr>)"
proof -
  let ?p1 = "p\<lparr>rng := Suc (Suc (rng p))\<rparr>"
  have pc: "potential_collapses demo_env p [c] (depth nd) = Inr ([([t], Some [0], Some 0)], ?p1)"
    by (simp add: get_cell_potential_states_and_costs_def cand
        candidate_costs_single_demo[OF td tc temp])
  have a1: "in_bounds (temp_world_state ?p1) c" and a2: "cell (temp_world_state ?p1) c = 0"
    using inb z by simp_all
  have yi: "yield_items demo_env ?p1 nd (depth nd) cum c 0 [(t, 0)]
      = Inr ([Node (depth nd + 1, world_hash demo_env (placed (temp_world_state p) c t)) (Some nd)
             (Some (c, t)) 0 cum], ?p1)"
    unfolding yield_items_eq[OF a1 a2] by simp
  show ?thesis
    unfolding expand_node_def Let_def ord pc
    by (simp add: yi del: yield_items.simps)
qed

lemma adjacent_bug_00: "adjacent_states bug_grid (0, 0) = [0, 0, 0, 0, 5, 0, 0, 0]"
  by (simp add: adjacent_states_def bug_in_bounds bug_cells)

lemma succ_root: "successors demo_env bug_problem initial_node = Inr ([node_A], bug_p1)"
proof -
  define p4 where "p4 = bug_problem\<lparr>best_node := Some initial_node,
      temp_world_open_super_tiles := {(0, 0)}, last_node := Some initial_node,
      plateau_check_ticker := Suc 0\<rparr>"
  have pl: "plateau_check (bug_problem\<lparr>best_node := Some initial_node,
      temp_world_open_super_tiles := {(0, 0)}, last_node := Some initial_node\<rparr>) initial_node
      = (False, p4)"
    by (simp add: plateau_check_def Let_def p4_def)
  have f: "temp_world_state p4 = bug_grid" "use_8cardinals p4 = False" "sample p4 = bug_sample"
    "temp_world_open_super_tiles p4 = {(0, 0)}" "min_temperature p4 = 50" "rng p4 = 0"
    "tile_counts p4 7 = Some 0"
    by (simp_all add: p4_def)
  have ord: "set_order demo_env (temp_world_open_super_tiles p4) = [(0, 0)]"
    unfolding f by simp
  have cand: "cell_candidates p4 (0, 0) = Inr ([7], [1])"
    by (simp add: cell_candidates_def f adjacent_bug_00 get_cell_potential_states_4cardinals_def
        potential_states_bug)
  have h: "world_hash demo_env (placed bug_grid (0, 0) 7) = 17"
    by (simp add: placed_def offset_def bug_grid_def)
  have td: "tile_data (sample p4) 7 = Some ([7], 8 / 9)"
    by (simp add: f bug_sample_def)
  have temp: "py_int (min_temperature p4) < 100"
    by (simp add: f py_int_50)
  have inb: "in_bounds (temp_world_state p4) (0, 0)" and z: "cell (temp_world_state p4) (0, 0) = 0"
    by (simp_all add: f bug_in_bounds bug_cells)
  have ex: "expand_node demo_env p4 initial_node 0 = Inr ([node_A], bug_p1)"
    unfolding expand_single_demo[OF ord cand td f(7) temp inb z] f h
    by (simp add: node_A_def initial_node_def bug_p1_def p4_def)
  show ?thesis
    by (simp add: successors_def initial_node_def[symmetric] bug_open pl ex Let_def)
      (simp add: initial_node_def)
qed

lemma gws_to_own_child:
  "parent b = Some a \<Longrightarrow> get_world_state p a b = apply_action p (action b)"
  by (cases b) (auto simp add: get_world_state_def split: sum.splits)

lemma gws_to_own_parent:
  "parent b = Some a \<Longrightarrow> get_world_state p b a = revert_action p (action b)"
  by (cases b) (auto simp add: get_world_state_def split: sum.splits)

lemma placed_bug:
  "placed bug_grid (0, 0) 7 = grid_A" "placed grid_A (1, 0) 7 = grid_B" "placed grid_B (1, 0) 0 = grid_A"
  by (simp_all add: placed_def offset_def grid_A_def grid_B_def bug_grid_def)

lemma grid_A_cells:
  "cell grid_A (0, 0) = 7" "cell grid_A (0, 1) = 5" "cell grid_A (0, 2) = 5"
  "cell grid_A (1, 0) = 0" "cell grid_A (1, 1) = 0" "cell grid_A (1, 2) = 0"
  by (simp_all add: cell_def grid_A_def bug_grid_def)

lemma grid_B_cells:
  "cell grid_B (0, 0) = 7" "cell grid_B (0, 1) = 5" "cell grid_B (0, 2) = 5"
  "cell grid_B (1, 0) = 7" "cell grid_B (1, 1) = 0" "cell grid_B (1, 2) = 0"
  by (simp_all add: cell_def grid_B_def bug_grid_def)

lemma g_in_bounds [simp]:
  "in_bounds grid_A c = in_bounds bug_grid c" "in_bounds grid_B c = in_bounds bug_grid c"
  by (simp_all add: grid_A_def grid_B_def)

lemma idx_bug:
  "indices_to_check False bug_grid (0, 0) = [(0, 1), (1, 0)]"
  "indices_to_check False grid_A (1, 0) = [(0, 0), (1, 1)]"
  "indices_to_check False grid_B (1, 0) = [(0, 0), (1, 1)]"
  by (simp_all add: indices_to_check_4 bug_in_bounds)

lemma bug_p1_sel:
  "temp_world_state bug_p1 = bug_grid" "use_8cardinals bug_p1 = False"
  "temp_world_open_super_tiles bug_p1 = {(0, 0)}" "tile_counts bug_p1 7 = Some 0"
  "last_node bug_p1 = Some initial_node" "stop_proxy bug_p1 = None"
  by (simp_all add: bug_p1_def)

lemma apply_A: "apply_action bug_p1 (Some ((0, 0), 7)) = Inr bug_pA"
proof -
  have inb: "in_bounds (temp_world_state bug_p1) (0, 0)"
    by (simp add: bug_p1_sel bug_in_bounds)
  have fr: "(0, 0) \<in> temp_world_open_super_tiles bug_p1"
    by (simp add: bug_p1_sel)
  have "temp_world_open_super_tiles bug_p1 - {(0, 0)} \<union>
      {n \<in> set (indices_to_check (use_8cardinals bug_p1) (temp_world_state bug_p1) (0, 0)).
         cell grid_A n = 0} = {(1, 0)}"
    by (auto simp add: bug_p1_sel idx_bug grid_A_cells)
  then show ?thesis
    unfolding apply_action_eq[OF inb bug_p1_sel(4) fr] bug_pA_def
    by (simp add: placed_def[symmetric] bug_p1_sel placed_bug)
qed

lemma bug_pA_sel:
  "temp_world_state bug_pA = grid_A" "use_8cardinals bug_pA = False" "sample bug_pA = bug_sample"
  "temp_world_open_super_tiles bug_pA = {(1, 0)}" "tile_counts bug_pA 7 = Some 1"
  "number_of_tiles_to_process bug_pA = 4" "min_temperature bug_pA = 50"
  "min_min_temperature bug_pA = 0" "max_min_temperature bug_pA = 80"
  "best_node bug_pA = Some initial_node" "ticker_proxy bug_pA = None"
  "plateau_stop_steps bug_pA = 3" "plateau_check_ticker bug_pA = 1" "rng bug_pA = 2"
  by (simp_all add: bug_pA_def bug_p1_def)

lemma temp_A: "get_new_temperature bug_pA (Suc 0) 0 = Inr 5"
  by (simp add: get_new_temperature_def temp_ratio_def bug_pA_sel)

lemma adjacent_grid_A_10: "adjacent_states grid_A (1, 0) = [0, 7, 5, 0, 0, 0, 0, 0]"
  by (simp add: adjacent_states_def bug_in_bounds grid_A_cells)

lemma node_depths: "depth initial_node = 0" "depth node_A = 1" "depth node_B = 2"
  "parent node_A = Some initial_node" "parent node_B = Some node_A"
  "action node_A = Some ((0, 0), 7)" "action node_B = Some ((1, 0), 7)"
  "extra initial_node = 0"
  by (simp_all add: initial_node_def node_A_def node_B_def)

lemma succ_A: "successors demo_env bug_p1 node_A = Inr ([node_B], bug_p2)"
proof -
  define p3 where "p3 = bug_pA\<lparr>min_temperature := 5, last_node := Some node_A,
      best_node := Some node_A, ticker_proxy := None\<rparr>"
  define p4 where "p4 = p3\<lparr>plateau_check_ticker := 2\<rparr>"
  have gw: "get_world_state bug_p1 initial_node node_A = Inr bug_pA"
    by (simp add: gws_to_own_child[OF node_depths(4)] node_depths apply_A)
  have pl: "plateau_check p3 node_A = (False, p4)"
    by (simp add: plateau_check_def Let_def p3_def p4_def bug_pA_sel)
  have f: "temp_world_state p4 = grid_A" "use_8cardinals p4 = False" "sample p4 = bug_sample"
    "temp_world_open_super_tiles p4 = {(1, 0)}" "min_temperature p4 = 5" "rng p4 = 2"
    "tile_counts p4 7 = Some 1"
    by (simp_all add: p4_def p3_def bug_pA_sel)
  have ord: "set_order demo_env (temp_world_open_super_tiles p4) = [(1, 0)]"
    unfolding f by simp
  have cand: "cell_candidates p4 (1, 0) = Inr ([7], [1])"
    by (simp add: cell_candidates_def f adjacent_grid_A_10 get_cell_potential_states_4cardinals_def
        potential_states_bug)
  have h: "world_hash demo_env grid_B = 24"
    by (simp add: grid_B_def)
  have td: "tile_data (sample p4) 7 = Some ([7], 8 / 9)"
    by (simp add: f bug_sample_def)
  have temp: "py_int (min_temperature p4) < 100"
    by (simp add: f py_int_def)
  have inb: "in_bounds (temp_world_state p4) (1, 0)" and z: "cell (temp_world_state p4) (1, 0) = 0"
    by (simp_all add: f bug_in_bounds grid_A_cells)
  have ex: "expand_node demo_env p4 node_A 0 = Inr ([node_B], bug_p2)"
    unfolding expand_single_demo[OF ord cand td f(7) temp inb z] f placed_bug h
    by (simp add: node_B_def node_depths bug_p2_def p4_def p3_def bug_pA_def bug_p1_def bug_problem_def
        demo_problem_def)
  have "successors demo_env bug_p1 node_A = (case plateau_check p3 node_A of
        (True, p4) \<Rightarrow> Inr ([], p4) | (False, p4) \<Rightarrow> expand_node demo_env p4 node_A 0)"
    by (simp add: successors_def bug_p1_sel node_depths gw temp_A bug_pA_sel Let_def p3_def)
  then show ?thesis
    by (simp add: pl ex)
qed

lemma bug_p2_sel:
  "temp_world_state bug_p2 = grid_A" "use_8cardinals bug_p2 = False"
  "temp_world_open_super_tiles bug_p2 = {(1, 0)}" "tile_counts bug_p2 7 = Some 1"
  by (simp_all add: bug_p2_def bug_pA_sel)

lemma apply_B: "apply_action bug_p2 (Some ((1, 0), 7)) = Inr bug_p3"
proof -
  have inb: "in_bounds (temp_world_state bug_p2) (1, 0)"
    by (simp add: bug_p2_sel bug_in_bounds)
  have fr: "(1, 0) \<in> temp_world_open_super_tiles bug_p2"
    by (simp add: bug_p2_sel)
  have "temp_world_open_super_tiles bug_p2 - {(1, 0)} \<union>
      {n \<in> set (indices_to_check (use_8cardinals bug_p2) (temp_world_state bug_p2) (1, 0)).
         cell grid_B n = 0} = {(1, 1)}"
    by (auto simp add: bug_p2_sel idx_bug grid_B_cells)
  then show ?thesis
    unfolding apply_action_eq[OF inb bug_p2_sel(4) fr] bug_p3_def
    by (simp add: placed_def[symmetric] bug_p2_sel placed_bug)
qed

lemma bug_p3_sel:
  "temp_world_state bug_p3 = grid_B" "use_8cardinals bug_p3 = False"
  "temp_world_open_super_tiles bug_p3 = {(1, 1)}" "tile_counts bug_p3 7 = Some 2"
  by (simp_all add: bug_p3_def bug_p2_sel)

lemma sub_idx_grid_A:
  "sub_indices_to_check False grid_A (0, 0) = [(0, 1), (1, 0)]"
  "sub_indices_to_check False grid_A (1, 1) = [(0, 1), (1, 0), (1, 2)]"
  by (simp_all add: sub_indices_to_check_def Let_def bug_in_bounds)

lemma decided_grid_A:
  "temp_world_state q = grid_A \<Longrightarrow> use_8cardinals q = False \<Longrightarrow> decided_around q (0, 0)"
  "temp_world_state q = grid_A \<Longrightarrow> use_8cardinals q = False \<Longrightarrow> decided_around q (1, 1)"
  by (simp_all add: decided_around_def sub_idx_grid_A grid_A_cells)

lemma revert_B: "revert_action bug_p3 (Some ((1, 0), 7)) = Inr bug_p4"
proof -
  have inb: "in_bounds (temp_world_state bug_p3) (1, 0)"
    by (simp add: bug_p3_sel bug_in_bounds)
  have tc: "tile_counts bug_p3 (cell (temp_world_state bug_p3) (1, 0)) = Some 2"
    by (simp add: bug_p3_sel grid_B_cells)
  have g: "(temp_world_state bug_p3)\<lparr>data := (data (temp_world_state bug_p3))
      [offset (temp_world_state bug_p3) (1, 0) := 0]\<rparr> = grid_A"
    by (simp add: placed_def[symmetric] bug_p3_sel placed_bug)
  have fr: "insert (1, 0) (temp_world_open_super_tiles bug_p3) -
      {n \<in> set (indices_to_check (use_8cardinals bug_p3) (temp_world_state bug_p3) (1, 0)).
         \<not> decided_around (bug_p3\<lparr>temp_world_state := grid_A\<rparr>) n} = {(1, 0), (1, 1)}"
    by (auto simp add: bug_p3_sel idx_bug decided_grid_A)
  have c: "(tile_counts bug_p3)(cell (temp_world_state bug_p3) (1, 0) \<mapsto> 2 - 1) = tile_counts bug_p2"
    by (auto simp add: bug_p3_def bug_p2_sel grid_B_cells)
  have "bug_p2\<lparr>temp_world_state := temp_world_state bug_p2\<rparr> = bug_p2"
    by simp
  then have same: "bug_p2\<lparr>temp_world_state := grid_A\<rparr> = bug_p2"
    by (simp only: bug_p2_sel(1))
  show ?thesis
    unfolding revert_action_eq[OF inb tc] g fr c
    by (simp add: bug_p3_def bug_p4_def same)
qed

text \<open>
  C5. A placement followed by its reversal should restore grid, counters and frontier.
  In the run on the starting grid \<open>[[0, 5, 5], [0, 0, 0]]\<close> the expansion of the
  root yields \<open>node_A\<close> alone and the expansion of \<open>node_A\<close> yields
  \<open>node_B\<close> alone, whose action places tile 7 at \<open>(1, 0)\<close>; the
  frontier is then \<open>{(1, 0)}\<close>. Applying that action and reverting it restores
  the grid and the counters, and leaves the frontier \<open>{(1, 0), (1, 1)}\<close>:
  the cell \<open>(1, 1)\<close> lies under a decided cell of the starting grid, which
  \<open>open_nodes_on_depth_zero\<close> looks for at offsets 0 to 2 and so misses, and
  which the reversal finds.
\<close>

theorem placement_round_trip_widens_frontier:
  "WFC_Sample_init first_byte [bug_img] = Inr bug_sample \<and>
   WFC_Problem_init demo_env bug_args = Inr bug_problem \<and>
   successors demo_env bug_problem initial_node = Inr ([node_A], bug_p1) \<and>
   successors demo_env bug_p1 node_A = Inr ([node_B], bug_p2) \<and>
   action node_B = Some ((1, 0), 7) \<and>
   temp_world_open_super_tiles bug_p2 = {(1, 0)} \<and>
   (case apply_action bug_p2 (Some ((1, 0), 7)) of
      Inl e \<Rightarrow> False
    | Inr p' \<Rightarrow>
        (case revert_action p' (Some ((1, 0), 7)) of
           Inl e \<Rightarrow> False
         | Inr p'' \<Rightarrow>
             temp_world_state p'' = temp_world_state bug_p2 \<and>
             tile_counts p'' = tile_counts bug_p2 \<and>
             temp_world_open_super_tiles p'' = {(1, 0), (1, 1)}))"
proof -
  have "temp_world_state bug_p4 = temp_world_state bug_p2" "tile_counts bug_p4 = tile_counts bug_p2"
    "temp_world_open_super_tiles bug_p4 = {(1, 0), (1, 1)}"
    by (simp_all add: bug_p4_def)
  then show ?thesis
    by (simp add: bug_sample_built bug_init succ_root succ_A node_depths apply_B revert_B
        bug_p2_sel(3))
qed

text \<open>
  C6. Materializing a node from itself changes nothing
  (\<open>get_world_state_same\<close>, for every problem and node), and materializing
  \<open>B\<close> from \<open>A\<close> and then \<open>A\<close> from \<open>B\<close> should give
  the same state. In the same run, with \<open>node_A\<close> and its child
  \<open>node_B\<close>: from the problem \<open>bug_p2\<close> that the expansion of
  \<open>node_A\<close> leaves, \<open>get_world_state(node_A, node_A)\<close> returns
  \<open>bug_p2\<close>, \<open>get_world_state(node_A, node_B)\<close> returns
  \<open>bug_p3\<close>, and \<open>get_world_state(node_B, node_A)\<close> from there returns
  \<open>bug_p4\<close>, with the grid and counters of \<open>bug_p2\<close> and the frontier
  \<open>{(1, 0), (1, 1)}\<close> where \<open>bug_p2\<close> has \<open>{(1, 0)}\<close>.
\<close>

theorem materialize_round_trip_widens_frontier:
  "WFC_Sample_init first_byte [bug_img] = Inr bug_sample \<and>
   WFC_Problem_init demo_env bug_args = Inr bug_problem \<and>
   successors demo_env bug_problem initial_node = Inr ([node_A], bug_p1) \<and>
   successors demo_env bug_p1 node_A = Inr ([node_B], bug_p2) \<and>
   parent node_B = Some node_A \<and>
   get_world_state bug_p2 node_A node_A = Inr bug_p2 \<and>
   get_world_state bug_p2 node_A node_B = Inr bug_p3 \<and>
   get_world_state bug_p3 node_B node_A = Inr bug_p4 \<and>
   temp_world_state bug_p4 = temp_world_state bug_p2 \<and>
   tile_counts bug_p4 = tile_counts bug_p2 \<and>
   temp_world_open_super_tiles bug_p2 = {(1, 0)} \<and>
   temp_world_open_super_tiles bug_p4 = {(1, 0), (1, 1)}"
proof -
  have "temp_world_state bug_p4 = temp_world_state bug_p2" "tile_counts bug_p4 = tile_counts bug_p2"
    "temp_world_open_super_tiles bug_p4 = {(1, 0), (1, 1)}"
    by (simp_all add: bug_p4_def)
  then show ?thesis
    by (simp add: bug_sample_built bug_init succ_root succ_A get_world_state_same
        gws_to_own_child[OF node_depths(5)] gws_to_own_parent[OF node_depths(5)]
        node_depths apply_B revert_B bug_p2_sel(3))
qed

end
